theory Spec2Isabelle
  imports Complex_Main "HOL-Library.AList" "HOL-Library.Sublist"
    "HOL-Library.List_Lexorder" "HOL-Library.Char_ord"
begin

section \<open>JavaScript values and keyed collections\<close>

text \<open>
  The adapters package is JavaScript. Its data is modelled by typed records that follow the
  package's own schemas (\<^verbatim>\<open>AdapterCapabilitiesSchema\<close>, \<^verbatim>\<open>TaskSchema\<close>) and, where the code
  inspects a value dynamically (\<^verbatim>\<open>key in obj\<close>, \<^verbatim>\<open>Boolean(v)\<close>, \<^verbatim>\<open>typeof v\<close>), by the small
  universe \<open>jsval\<close>. Numbers in profiles are non-negative integers (token counts, concurrency
  limits); scores are exact rationals, so floating-point rounding is outside the model.
  Strings are ASCII. Inherited (prototype) properties are outside the model: \<^verbatim>\<open>in\<close> is
  membership among an object's own keys.

  A JavaScript \<^verbatim>\<open>Map\<close> and the own properties of an object are association lists in
  insertion order with distinct keys: \<^verbatim>\<open>get\<close> is \<open>map_of\<close>, \<^verbatim>\<open>set\<close> is \<open>AList.update\<close>
  (an existing key keeps its position, a new key goes to the end), \<^verbatim>\<open>delete\<close> is
  \<open>AList.delete\<close>.

  Private members of the source start with an underscore; the model drops it
  (\<^verbatim>\<open>_calculateCapabilityScore\<close> is \<open>calculateCapabilityScore\<close>). Record fields carry a short
  prefix naming their record.
\<close>

datatype jsval =
    JUndefined
  | JNull
  | JBool bool
  | JNum nat
  | JStr string
  | JArr "jsval list"
  | JObj "(string \<times> jsval) list"

text \<open>\<^verbatim>\<open>Boolean(v)\<close>: JavaScript truthiness.\<close>

fun Boolean :: "jsval \<Rightarrow> bool" where
  "Boolean JUndefined = False"
| "Boolean JNull = False"
| "Boolean (JBool b) = b"
| "Boolean (JNum n) = (n \<noteq> 0)"
| "Boolean (JStr s) = (s \<noteq> [])"
| "Boolean (JArr xs) = True"
| "Boolean (JObj kvs) = True"

text \<open>\<^verbatim>\<open>typeof v === 'object'\<close> (true of \<^verbatim>\<open>null\<close>, arrays and objects).\<close>

fun typeofObject :: "jsval \<Rightarrow> bool" where
  "typeofObject JNull = True"
| "typeofObject (JArr xs) = True"
| "typeofObject (JObj kvs) = True"
| "typeofObject v = False"

definition digitChar :: "nat \<Rightarrow> char" where
  "digitChar d = char_of (48 + d)"

text \<open>Decimal rendering of a number inside a template string.\<close>

function showNat :: "nat \<Rightarrow> string" where
  "showNat n = (if n < 10 then [digitChar n] else showNat (n div 10) @ [digitChar (n mod 10)])"
  by pat_completeness auto
termination
  by (relation "measure id") auto

declare showNat.simps [simp del]

text \<open>The own keys of an array are its indices and \<^verbatim>\<open>length\<close>.\<close>

definition arrayIndex :: "string \<Rightarrow> jsval list \<Rightarrow> nat option" where
  "arrayIndex k xs = find (\<lambda>i. showNat i = k) [0..<length xs]"

text \<open>\<^verbatim>\<open>k in v\<close> for a value \<open>v\<close> that passed \<^verbatim>\<open>typeof v === 'object'\<close> and is truthy.\<close>

fun hasProp :: "string \<Rightarrow> jsval \<Rightarrow> bool" where
  "hasProp k (JObj kvs) = (map_of kvs k \<noteq> None)"
| "hasProp k (JArr xs) = (k = ''length'' \<or> arrayIndex k xs \<noteq> None)"
| "hasProp k v = False"

text \<open>\<^verbatim>\<open>v[k]\<close>: an absent property reads as \<^verbatim>\<open>undefined\<close>.\<close>

fun getProp :: "string \<Rightarrow> jsval \<Rightarrow> jsval" where
  "getProp k (JObj kvs) = (case map_of kvs k of Some v \<Rightarrow> v | None \<Rightarrow> JUndefined)"
| "getProp k (JArr xs) =
     (if k = ''length'' then JNum (length xs)
      else case arrayIndex k xs of Some i \<Rightarrow> xs ! i | None \<Rightarrow> JUndefined)"
| "getProp k v = JUndefined"

text \<open>\<^verbatim>\<open>s.includes(p)\<close> and its helper.\<close>

fun startsWith :: "string \<Rightarrow> string \<Rightarrow> bool" where
  "startsWith s [] = True"
| "startsWith [] (p # ps) = False"
| "startsWith (c # cs) (p # ps) = (c = p \<and> startsWith cs ps)"

fun stringIncludes :: "string \<Rightarrow> string \<Rightarrow> bool" where
  "stringIncludes [] p = (p = [])"
| "stringIncludes (c # cs) p = (startsWith (c # cs) p \<or> stringIncludes cs p)"

text \<open>\<^verbatim>\<open>[...new Set(xs)]\<close>: duplicates removed, first occurrences kept in order.\<close>

fun dedupe :: "'a list \<Rightarrow> 'a list" where
  "dedupe [] = []"
| "dedupe (x # xs) = x # dedupe (filter (\<lambda>y. y \<noteq> x) xs)"

text \<open>\<^verbatim>\<open>xs.join(sep)\<close>.\<close>

fun join :: "string \<Rightarrow> string list \<Rightarrow> string" where
  "join sep [] = []"
| "join sep [x] = x"
| "join sep (x # y # ys) = x @ sep @ join sep (y # ys)"

section \<open>Capability model\<close>

text \<open>
  \<^verbatim>\<open>AdapterCapabilitiesSchema\<close>: \<^verbatim>\<open>maxContextTokens\<close>, \<^verbatim>\<open>supportedLanguages\<close>, \<^verbatim>\<open>multiFile\<close>,
  \<^verbatim>\<open>streaming\<close>, the optional object \<^verbatim>\<open>subAgents\<close> and the record \<^verbatim>\<open>features\<close> whose entries
  are a boolean or an object \<^verbatim>\<open>{enabled, config}\<close>.
\<close>

record subAgentsCap =
  sa_supported :: bool
  sa_maxConcurrent :: "nat option"
  sa_delegationTypes :: "string list option"

datatype featureFlag = Flag bool | Detailed bool jsval

record capabilityProfile =
  cap_maxContextTokens :: nat
  cap_supportedLanguages :: "string list"
  cap_multiFile :: bool
  cap_streaming :: bool
  cap_subAgents :: "subAgentsCap option"
  cap_features :: "(string \<times> featureFlag) list"

text \<open>The profile as the JavaScript object the base class stores in \<^verbatim>\<open>_capabilities\<close>.\<close>

definition subAgentsObject :: "subAgentsCap \<Rightarrow> jsval" where
  "subAgentsObject sa = JObj
     ([(''supported'', JBool (sa_supported sa))]
      @ (case sa_maxConcurrent sa of None \<Rightarrow> [] | Some n \<Rightarrow> [(''maxConcurrent'', JNum n)])
      @ (case sa_delegationTypes sa of None \<Rightarrow> []
         | Some ds \<Rightarrow> [(''delegationTypes'', JArr (map JStr ds))]))"

fun flagObject :: "featureFlag \<Rightarrow> jsval" where
  "flagObject (Flag b) = JBool b"
| "flagObject (Detailed en cfg) = JObj [(''enabled'', JBool en), (''config'', cfg)]"

definition capsObject :: "capabilityProfile \<Rightarrow> (string \<times> jsval) list" where
  "capsObject c =
     [(''maxContextTokens'', JNum (cap_maxContextTokens c)),
      (''supportedLanguages'', JArr (map JStr (cap_supportedLanguages c))),
      (''multiFile'', JBool (cap_multiFile c)),
      (''streaming'', JBool (cap_streaming c))]
     @ (case cap_subAgents c of None \<Rightarrow> [] | Some sa \<Rightarrow> [(''subAgents'', subAgentsObject sa)])
     @ [(''features'', JObj (map (\<lambda>(k, f). (k, flagObject f)) (cap_features c)))]"

text \<open>
  \<^verbatim>\<open>feature.split('.', 2)\<close>: the text before the first dot, and the text between the first
  and the second dot (or the end).
\<close>

definition splitParent :: "string \<Rightarrow> string" where
  "splitParent f = takeWhile (\<lambda>c. c \<noteq> CHR ''.'') f"

definition splitChild :: "string \<Rightarrow> string" where
  "splitChild f = takeWhile (\<lambda>c. c \<noteq> CHR ''.'') (drop 1 (dropWhile (\<lambda>c. c \<noteq> CHR ''.'') f))"

text \<open>
  \<^verbatim>\<open>AIAgentAdapter.supportsFeature\<close>, on the stored \<^verbatim>\<open>_capabilities\<close> (\<open>None\<close> is the
  \<^verbatim>\<open>null\<close> the base constructor leaves there). The three lookups are tried in the source's
  order: a top-level key, an entry of \<^verbatim>\<open>features\<close>, a dotted path.
\<close>

definition supportsFeatureObj :: "(string \<times> jsval) list \<Rightarrow> string \<Rightarrow> bool" where
  "supportsFeatureObj caps feature =
     (if map_of caps feature \<noteq> None then Boolean (getProp feature (JObj caps))
      else if Boolean (getProp ''features'' (JObj caps))
              \<and> hasProp feature (getProp ''features'' (JObj caps))
      then (case getProp feature (getProp ''features'' (JObj caps)) of
              JBool b \<Rightarrow> b
            | featureValue \<Rightarrow> Boolean (getProp ''enabled'' featureValue))
      else if stringIncludes feature ''.''
              \<and> map_of caps (splitParent feature) \<noteq> None
              \<and> Boolean (getProp (splitParent feature) (JObj caps))
              \<and> typeofObject (getProp (splitParent feature) (JObj caps))
              \<and> hasProp (splitChild feature) (getProp (splitParent feature) (JObj caps))
      then Boolean (getProp (splitChild feature) (getProp (splitParent feature) (JObj caps)))
      else False)"

definition AIAgentAdapter_supportsFeature :: "capabilityProfile option \<Rightarrow> string \<Rightarrow> bool" where
  "AIAgentAdapter_supportsFeature caps feature =
     (case caps of None \<Rightarrow> False | Some c \<Rightarrow> supportsFeatureObj (capsObject c) feature)"

text \<open>\<^verbatim>\<open>AIAgentAdapter.getFeatureConfig\<close>: the truthy \<^verbatim>\<open>config\<close> of an object-valued feature.\<close>

definition AIAgentAdapter_getFeatureConfig :: "capabilityProfile option \<Rightarrow> string \<Rightarrow> jsval option" where
  "AIAgentAdapter_getFeatureConfig caps feature =
     (case caps of
        None \<Rightarrow> None
      | Some c \<Rightarrow>
          (case map_of (cap_features c) feature of
             Some (Detailed en cfg) \<Rightarrow> (if Boolean cfg then Some cfg else None)
           | _ \<Rightarrow> None))"

section \<open>Tasks, results and adapters\<close>

text \<open>
  The task input shape: \<^verbatim>\<open>id\<close>, \<^verbatim>\<open>type\<close> and \<^verbatim>\<open>description\<close> are required strings
  (\<^verbatim>\<open>TaskSchema\<close>); \<^verbatim>\<open>context\<close>, \<^verbatim>\<open>extensions\<close>, \<^verbatim>\<open>complexity\<close>, \<^verbatim>\<open>streaming\<close> and
  \<^verbatim>\<open>executionStrategy\<close> are optional. \<^verbatim>\<open>role\<close> and \<^verbatim>\<open>focus\<close> are the keys the sub-agent
  decomposition adds to a copy of the task. A flag the code only tests for truthiness is a
  \<open>bool\<close>.
\<close>

record taskContext =
  ctx_files :: "string list option"
  ctx_content :: "string option"
  ctx_code :: "string option"

record extension =
  ext_executionStrategy :: "string option"
  ext_subAgents :: bool
  ext_streaming :: bool
  ext_features :: "string list option"

record task =
  task_id :: string
  task_type :: string
  task_description :: string
  task_context :: "taskContext option"
  task_extensions :: "(string \<times> extension) list option"
  task_complexity :: "string option"
  task_streaming :: bool
  task_executionStrategy :: "string option"
  task_role :: "string option"
  task_focus :: "string option"

text \<open>
  An execution result as the engine reads and builds it. \<open>res_task\<close> is the \<^verbatim>\<open>task\<close> key of
  the object the parallel strategy substitutes for a failed sub-task.
\<close>

record parallelSummary =
  ps_successful :: nat
  ps_failed :: nat
  ps_failures :: "(string \<times> string) list"

record result =
  res_taskId :: "string option"
  res_status :: "string option"
  res_output :: "string option"
  res_artifacts :: "string list option"
  res_error :: "string option"
  res_task :: "task option"
  res_parallelResults :: "parallelSummary option"
  res_batchCount :: "nat option"

definition emptyResult :: result where
  "emptyResult = \<lparr>res_taskId = None, res_status = None, res_output = None,
     res_artifacts = None, res_error = None, res_task = None,
     res_parallelResults = None, res_batchCount = None\<rparr>"

text \<open>
  A promise in virtual time: \<open>None\<close> never settles; \<open>Some (d, s)\<close> settles with \<open>s\<close> after \<open>d\<close>
  milliseconds. An adapter entry point takes the adapter's private state \<open>'s\<close> (call counters,
  sessions, whatever makes two calls differ) and returns the promise together with the state
  after the call was made.
\<close>

datatype 'a settled = Resolved 'a | Rejected string

type_synonym 'a promise = "(nat \<times> 'a settled) option"

record agent =
  agent_id :: string
  agent_role :: string
  agent_task :: task

record plan =
  plan_orchestrationMode :: string
  plan_subtasks :: "task list"
  plan_coordinatorRole :: string
  plan_coordinatorResponsibilities :: "string list"
  plan_agents :: "agent list"

text \<open>
  What the registry, the router and the engine use of an adapter. \<open>ad_apiVersion\<close> and
  \<open>ad_capabilities\<close> are \<open>None\<close> when the getter throws, as the base class getters do until a
  subclass provides them. The three optional members are methods an adapter may lack.
\<close>

record 's adapter =
  ad_name :: string
  ad_apiVersion :: "string option"
  ad_capabilities :: "capabilityProfile option"
  ad_supportsFeature :: "string \<Rightarrow> bool"
  ad_getFeatureConfig :: "string \<Rightarrow> jsval option"
  ad_getVendorExtensions :: "(task \<Rightarrow> string \<Rightarrow> extension option) option"
  ad_executeTask :: "'s \<Rightarrow> task \<Rightarrow> result promise \<times> 's"
  ad_executeWithSubAgents :: "('s \<Rightarrow> plan \<Rightarrow> result promise \<times> 's) option"
  ad_executeWithStreaming :: "('s \<Rightarrow> task \<Rightarrow> result promise \<times> 's) option"

text \<open>\<^verbatim>\<open>AIAgentAdapter.getVendorExtensions\<close>: \<^verbatim>\<open>task.extensions?.[vendorName] || null\<close>.\<close>

definition AIAgentAdapter_getVendorExtensions :: "task \<Rightarrow> string \<Rightarrow> extension option" where
  "AIAgentAdapter_getVendorExtensions t vendorName =
     (case task_extensions t of None \<Rightarrow> None | Some exts \<Rightarrow> map_of exts vendorName)"

section \<open>Adapter registry\<close>

text \<open>
  \<^verbatim>\<open>_adapters\<close> maps a name to a map from versions to adapters, \<^verbatim>\<open>_defaultVersions\<close> a name to
  a version. \<^verbatim>\<open>_metrics\<close> holds two kinds of entries: the performance record that
  \<^verbatim>\<open>recordMetrics\<close> keeps under the key \<^verbatim>\<open>name:version\<close>, and the empty \<^verbatim>\<open>Map\<close> that
  \<^verbatim>\<open>registerAdapter\<close> stores under the bare name. The notifications the registry emits and its
  console output do not feed back into it and are left out.
\<close>

record performanceRecord =
  pr_totalExecutions :: nat
  pr_totalDuration :: nat
  pr_failures :: nat
  pr_avgDuration :: rat
  pr_successRate :: rat
  pr_lastUpdated :: "nat option"

datatype metricsEntry = Stats performanceRecord | VersionMap

record 's registry =
  reg_adapters :: "(string \<times> (string \<times> 's adapter) list) list"
  reg_defaultVersions :: "(string \<times> string) list"
  reg_metrics :: "(string \<times> metricsEntry) list"

definition emptyRegistry :: "'s registry" where
  "emptyRegistry = \<lparr>reg_adapters = [], reg_defaultVersions = [], reg_metrics = []\<rparr>"

text \<open>
  \<^verbatim>\<open>registerAdapter(name, adapter, version = null, setAsDefault = true)\<close>. A missing name is
  the empty string, a missing adapter is \<open>None\<close>; \<^verbatim>\<open>version || adapter.apiVersion\<close> takes the
  adapter's version when the argument is absent or empty. Every throw happens before the
  first write, so a failed call leaves the registry as it was.
\<close>

definition registerAdapter ::
  "string \<Rightarrow> 's adapter option \<Rightarrow> string option \<Rightarrow> bool \<Rightarrow> 's registry \<Rightarrow> string + 's registry" where
  "registerAdapter name adapter version setAsDefault reg =
     (case adapter of
        None \<Rightarrow> Inl ''Name and adapter are required''
      | Some a \<Rightarrow>
          if name = [] then Inl ''Name and adapter are required''
          else
            (case (if version = None \<or> version = Some [] then ad_apiVersion a else version) of
               None \<Rightarrow> Inl ''apiVersion getter must be implemented''
             | Some adapterVersion \<Rightarrow>
                 (let versionMap = (case map_of (reg_adapters reg) name of
                                      None \<Rightarrow> [] | Some vm \<Rightarrow> vm)
                  in Inr (reg
                    \<lparr>reg_adapters :=
                       AList.update name (AList.update adapterVersion a versionMap) (reg_adapters reg),
                     reg_defaultVersions :=
                       (if setAsDefault \<or> map_of (reg_defaultVersions reg) name = None
                        then AList.update name adapterVersion (reg_defaultVersions reg)
                        else reg_defaultVersions reg),
                     reg_metrics :=
                       (if map_of (reg_metrics reg) name = None
                        then AList.update name VersionMap (reg_metrics reg)
                        else reg_metrics reg)\<rparr>))))"

text \<open>\<^verbatim>\<open>getAdapter(name, version = null)\<close>; \<open>None\<close> is the \<^verbatim>\<open>null\<close> it returns.\<close>

definition getAdapter :: "'s registry \<Rightarrow> string \<Rightarrow> string option \<Rightarrow> 's adapter option" where
  "getAdapter reg name version =
     (case map_of (reg_adapters reg) name of
        None \<Rightarrow> None
      | Some versionMap \<Rightarrow>
          (case (if version = None \<or> version = Some []
                 then map_of (reg_defaultVersions reg) name else version) of
             None \<Rightarrow> None
           | Some targetVersion \<Rightarrow>
               if targetVersion = [] then None else map_of versionMap targetVersion))"

text \<open>\<^verbatim>\<open>setDefaultVersion(name, version)\<close>.\<close>

definition setDefaultVersion :: "string \<Rightarrow> string \<Rightarrow> 's registry \<Rightarrow> string + 's registry" where
  "setDefaultVersion name version reg =
     (case map_of (reg_adapters reg) name of
        None \<Rightarrow> Inl (''Adapter '' @ name @ '' v'' @ version @ '' not found'')
      | Some versionMap \<Rightarrow>
          if map_of versionMap version = None
          then Inl (''Adapter '' @ name @ '' v'' @ version @ '' not found'')
          else Inr (reg\<lparr>reg_defaultVersions :=
                          AList.update name version (reg_defaultVersions reg)\<rparr>))"

text \<open>
  \<^verbatim>\<open>unregisterAdapter(name, version = null)\<close>. An absent or empty version removes every
  version of the name. After the removal of the default version, the first remaining key of
  the version map becomes the default.
\<close>

definition unregisterAdapter :: "string \<Rightarrow> string option \<Rightarrow> 's registry \<Rightarrow> 's registry" where
  "unregisterAdapter name version reg =
     (case map_of (reg_adapters reg) name of
        None \<Rightarrow> reg
      | Some versionMap0 \<Rightarrow>
          (case version of
             Some (c # cs) \<Rightarrow>
               (let versionMap = AList.delete (c # cs) versionMap0 in
                if length versionMap = 0
                then reg\<lparr>reg_adapters := AList.delete name (reg_adapters reg),
                         reg_defaultVersions := AList.delete name (reg_defaultVersions reg)\<rparr>
                else if map_of (reg_defaultVersions reg) name = Some (c # cs)
                then reg\<lparr>reg_adapters := AList.update name versionMap (reg_adapters reg),
                         reg_defaultVersions :=
                           AList.update name (fst (hd versionMap)) (reg_defaultVersions reg)\<rparr>
                else reg\<lparr>reg_adapters := AList.update name versionMap (reg_adapters reg)\<rparr>)
           | _ \<Rightarrow>
               reg\<lparr>reg_adapters := AList.delete name (reg_adapters reg),
                    reg_defaultVersions := AList.delete name (reg_defaultVersions reg)\<rparr>))"

text \<open>The flag \<^verbatim>\<open>isDefault\<close> that \<^verbatim>\<open>getAllAdapterInfo\<close> computes for a row: \<^verbatim>\<open>version === defaultVersion\<close>.\<close>

definition isDefault :: "'s registry \<Rightarrow> string \<Rightarrow> string \<Rightarrow> bool" where
  "isDefault reg name version = (map_of (reg_defaultVersions reg) name = Some version)"

subsection \<open>Performance metrics\<close>

definition metricsKey :: "string \<Rightarrow> string \<Rightarrow> string" where
  "metricsKey name version = name @ '':'' @ version"

definition defaultMetrics :: performanceRecord where
  "defaultMetrics = \<lparr>pr_totalExecutions = 0, pr_totalDuration = 0, pr_failures = 0,
     pr_avgDuration = 0, pr_successRate = 1, pr_lastUpdated = None\<rparr>"

text \<open>\<^verbatim>\<open>getAdapterMetrics\<close>: \<^verbatim>\<open>this._metrics.get(key) || {...}\<close>; every stored entry is truthy.\<close>

definition getAdapterMetrics :: "'s registry \<Rightarrow> string \<Rightarrow> string \<Rightarrow> metricsEntry" where
  "getAdapterMetrics reg name version =
     (case map_of (reg_metrics reg) (metricsKey name version) of
        Some entry \<Rightarrow> entry
      | None \<Rightarrow> Stats defaultMetrics)"

text \<open>
  \<^verbatim>\<open>recordMetrics(name, version, {duration, failed})\<close> at time \<open>now\<close>. When the key holds the
  \<^verbatim>\<open>Map\<close> of a registered name, the increments turn its counters into \<^verbatim>\<open>NaN\<close>; the entry stays
  a \<open>VersionMap\<close>, whose \<^verbatim>\<open>avgDuration\<close> reads as falsy either way.
\<close>

definition recordMetrics ::
  "string \<Rightarrow> string \<Rightarrow> nat option \<Rightarrow> bool \<Rightarrow> nat \<Rightarrow> 's registry \<Rightarrow> 's registry" where
  "recordMetrics name version duration failed now reg =
     (let key = metricsKey name version;
          entry = (case map_of (reg_metrics reg) key of
                     None \<Rightarrow> Stats \<lparr>pr_totalExecutions = 0, pr_totalDuration = 0, pr_failures = 0,
                                     pr_avgDuration = 0, pr_successRate = 0, pr_lastUpdated = None\<rparr>
                   | Some e \<Rightarrow> e)
      in case entry of
           VersionMap \<Rightarrow> reg\<lparr>reg_metrics := AList.update key VersionMap (reg_metrics reg)\<rparr>
         | Stats stats \<Rightarrow>
             (let totalExecutions = pr_totalExecutions stats + 1;
                  totalDuration = pr_totalDuration stats + (case duration of None \<Rightarrow> 0 | Some d \<Rightarrow> d);
                  failures = (if failed then pr_failures stats + 1 else pr_failures stats)
              in reg\<lparr>reg_metrics := AList.update key
                   (Stats \<lparr>pr_totalExecutions = totalExecutions,
                           pr_totalDuration = totalDuration,
                           pr_failures = failures,
                           pr_avgDuration = of_nat totalDuration / of_nat totalExecutions,
                           pr_successRate =
                             (of_nat totalExecutions - of_nat failures) / of_nat totalExecutions,
                           pr_lastUpdated = Some now\<rparr>)
                   (reg_metrics reg)\<rparr>))"

subsection \<open>Sequences of calls\<close>

text \<open>
  A sequence of calls on a fresh registry; a call that throws changes nothing. \<open>Record\<close> is
  \<^verbatim>\<open>recordMetrics\<close> with its duration, its failure flag and the time of the call.
\<close>

datatype 's registryCall =
    Register string "'s adapter option" "string option" bool
  | SetDefault string string
  | Unregister string "string option"
  | Record string string "nat option" bool nat

fun applyCall :: "'s registry \<Rightarrow> 's registryCall \<Rightarrow> 's registry" where
  "applyCall reg (Register name adapter version setAsDefault) =
     (case registerAdapter name adapter version setAsDefault reg of Inl e \<Rightarrow> reg | Inr reg' \<Rightarrow> reg')"
| "applyCall reg (SetDefault name version) =
     (case setDefaultVersion name version reg of Inl e \<Rightarrow> reg | Inr reg' \<Rightarrow> reg')"
| "applyCall reg (Unregister name version) = unregisterAdapter name version reg"
| "applyCall reg (Record name version duration failed now) =
     recordMetrics name version duration failed now reg"

definition runCalls :: "'s registryCall list \<Rightarrow> 's registry" where
  "runCalls calls = foldl applyCall emptyRegistry calls"

text \<open>The key of \<^verbatim>\<open>_metrics\<close> a call may write.\<close>

fun metricsKeyWritten :: "'s registryCall \<Rightarrow> string option" where
  "metricsKeyWritten (Register name adapter version setAsDefault) = Some name"
| "metricsKeyWritten (Record name version duration failed now) = Some (metricsKey name version)"
| "metricsKeyWritten c = None"

text \<open>
  The shape every reachable registry has: keys are distinct, a registered name has at least
  one version and a default among its versions, and only registered names have a default.
\<close>

definition consistent :: "'s registry \<Rightarrow> bool" where
  "consistent reg \<longleftrightarrow>
     distinct (map fst (reg_adapters reg)) \<and>
     distinct (map fst (reg_defaultVersions reg)) \<and>
     (\<forall>name. case map_of (reg_adapters reg) name of
        None \<Rightarrow> map_of (reg_defaultVersions reg) name = None
      | Some versionMap \<Rightarrow>
          versionMap \<noteq> [] \<and> distinct (map fst versionMap) \<and>
          (\<exists>v. map_of (reg_defaultVersions reg) name = Some v \<and> map_of versionMap v \<noteq> None))"

subsection \<open>Capability score\<close>

text \<open>
  A requirement profile as \<^verbatim>\<open>_calculateCapabilityScore\<close> reads it: \<^verbatim>\<open>features\<close> and
  \<^verbatim>\<open>languages\<close> may be absent (an empty array is present and truthy), \<^verbatim>\<open>minContextTokens\<close>
  counts when it is not zero.
\<close>

record requirements =
  req_features :: "string list option"
  req_minContextTokens :: nat
  req_languages :: "string list option"
  req_multiFile :: bool
  req_streaming :: bool
  req_subAgents :: bool

text \<open>The three running variables of the function.\<close>

record tally =
  score :: rat
  requiredCount :: nat
  matchedCount :: nat

definition checkFeature :: "'s adapter \<Rightarrow> tally \<Rightarrow> string \<Rightarrow> tally" where
  "checkFeature a t feature =
     (if ad_supportsFeature a feature
      then \<lparr>score = score t + 10, requiredCount = requiredCount t + 1,
            matchedCount = matchedCount t + 1\<rparr>
      else t\<lparr>requiredCount := requiredCount t + 1\<rparr>)"

definition checkFeatures :: "'s adapter \<Rightarrow> requirements \<Rightarrow> tally \<Rightarrow> tally" where
  "checkFeatures a req t =
     (case req_features req of None \<Rightarrow> t | Some fs \<Rightarrow> foldl (checkFeature a) t fs)"

definition checkContextWindow :: "capabilityProfile \<Rightarrow> requirements \<Rightarrow> tally \<Rightarrow> tally" where
  "checkContextWindow caps req t =
     (if req_minContextTokens req \<noteq> 0
      then (if cap_maxContextTokens caps \<ge> req_minContextTokens req
            then (let ratio = (of_nat (cap_maxContextTokens caps) :: rat)
                                / of_nat (req_minContextTokens req)
                  in \<lparr>score = score t + 5 + min (ratio - 1) 5,
                      requiredCount = requiredCount t + 1,
                      matchedCount = matchedCount t + 1\<rparr>)
            else t\<lparr>requiredCount := requiredCount t + 1\<rparr>)
      else t)"

definition checkLanguages :: "capabilityProfile \<Rightarrow> requirements \<Rightarrow> tally \<Rightarrow> tally" where
  "checkLanguages caps req t =
     (case req_languages req of
        None \<Rightarrow> t
      | Some languages \<Rightarrow>
          (let requiredLangs = dedupe languages;
               matchingLangs = filter (\<lambda>lang. lang \<in> set (cap_supportedLanguages caps)) requiredLangs
           in if length matchingLangs = length requiredLangs
              then \<lparr>score = score t + 5, requiredCount = requiredCount t + 1,
                    matchedCount = matchedCount t + 1\<rparr>
              else if length matchingLangs > 0
              then \<lparr>score = score t
                             + (of_nat (length matchingLangs) / of_nat (length requiredLangs)) * 5,
                    requiredCount = requiredCount t + 1,
                    matchedCount = matchedCount t\<rparr>
              else t\<lparr>requiredCount := requiredCount t + 1\<rparr>))"

text \<open>The table \<^verbatim>\<open>capabilityChecks\<close>: requirement key, capability name, points.\<close>

definition capabilityChecks :: "(string \<times> string \<times> rat) list" where
  "capabilityChecks =
     [(''multiFile'', ''multiFile'', 3),
      (''streaming'', ''streaming'', 2),
      (''subAgents'', ''subAgents.supported'', 5)]"

text \<open>\<^verbatim>\<open>requirements[check.req]\<close> for the keys of the table.\<close>

definition requirementFlag :: "requirements \<Rightarrow> string \<Rightarrow> bool" where
  "requirementFlag req key =
     (if key = ''multiFile'' then req_multiFile req
      else if key = ''streaming'' then req_streaming req
      else if key = ''subAgents'' then req_subAgents req
      else False)"

definition checkCapability :: "'s adapter \<Rightarrow> requirements \<Rightarrow> tally \<Rightarrow> string \<times> string \<times> rat \<Rightarrow> tally" where
  "checkCapability a req t check =
     (case check of (reqKey, cap, points) \<Rightarrow>
        if requirementFlag req reqKey
        then (if ad_supportsFeature a cap
              then \<lparr>score = score t + points, requiredCount = requiredCount t + 1,
                    matchedCount = matchedCount t + 1\<rparr>
              else t\<lparr>requiredCount := requiredCount t + 1\<rparr>)
        else t)"

definition finalScore :: "tally \<Rightarrow> rat" where
  "finalScore t =
     (if requiredCount t > 0 \<and> matchedCount t < requiredCount t then 0 else score t)"

definition scoreTally :: "'s adapter \<Rightarrow> capabilityProfile \<Rightarrow> requirements \<Rightarrow> tally" where
  "scoreTally a caps req =
     foldl (checkCapability a req)
       (checkLanguages caps req
          (checkContextWindow caps req
             (checkFeatures a req \<lparr>score = 0, requiredCount = 0, matchedCount = 0\<rparr>)))
       capabilityChecks"

text \<open>\<^verbatim>\<open>_calculateCapabilityScore(adapter, requirements)\<close>; \<open>Inl\<close> is what the capabilities getter throws.\<close>

definition calculateCapabilityScore :: "'s adapter \<Rightarrow> requirements \<Rightarrow> string + rat" where
  "calculateCapabilityScore a req =
     (case ad_capabilities a of
        None \<Rightarrow> Inl ''capabilities getter must be implemented''
      | Some caps \<Rightarrow> Inr (finalScore (scoreTally a caps req)))"

subsection \<open>Matching and selection\<close>

record 's match =
  m_name :: string
  m_version :: string
  m_adapter :: "'s adapter"
  m_score :: rat
  m_capabilities :: "capabilityProfile option"

text \<open>Every registered name/version pair in iteration order.\<close>

definition registeredPairs :: "'s registry \<Rightarrow> (string \<times> string \<times> 's adapter) list" where
  "registeredPairs reg =
     concat (map (\<lambda>(name, versionMap). map (\<lambda>(version, a). (name, version, a)) versionMap)
                 (reg_adapters reg))"

fun collectMatches :: "(string \<times> string \<times> 's adapter) list \<Rightarrow> requirements \<Rightarrow> string + 's match list" where
  "collectMatches [] req = Inr []"
| "collectMatches ((name, version, a) # rest) req =
     (case calculateCapabilityScore a req of
        Inl e \<Rightarrow> Inl e
      | Inr s \<Rightarrow>
          (case collectMatches rest req of
             Inl e \<Rightarrow> Inl e
           | Inr matches \<Rightarrow>
               Inr (if s > 0
                    then \<lparr>m_name = name, m_version = version, m_adapter = a, m_score = s,
                          m_capabilities = ad_capabilities a\<rparr> # matches
                    else matches)))"

text \<open>\<^verbatim>\<open>matches.sort((a, b) => b.score - a.score)\<close>: a stable sort, highest score first.\<close>

definition sortByScore :: "'s match list \<Rightarrow> 's match list" where
  "sortByScore matches = sort_key (\<lambda>m. - m_score m) matches"

definition findMatchingAdapters :: "'s registry \<Rightarrow> requirements \<Rightarrow> string + 's match list" where
  "findMatchingAdapters reg req =
     (case collectMatches (registeredPairs reg) req of
        Inl e \<Rightarrow> Inl e
      | Inr matches \<Rightarrow> Inr (sortByScore matches))"

record preferences =
  pref_preferredAdapters :: "string list option"
  pref_considerPerformance :: bool
  pref_fallbackStrategies :: "string list"

definition boostPreferred :: "string list \<Rightarrow> 's match \<Rightarrow> 's match" where
  "boostPreferred preferred m =
     (if m_name m \<in> set preferred then m\<lparr>m_score := m_score m * (3 / 2)\<rparr> else m)"

text \<open>
  The body of the \<^verbatim>\<open>considerPerformance\<close> loop: \<^verbatim>\<open>if (metrics.avgDuration)\<close> guards the boost
  \<^verbatim>\<open>1 + Math.min((1000 / avgDuration) * 0.1, 0.3)\<close>.
\<close>

definition boostPerformance :: "'s registry \<Rightarrow> 's match \<Rightarrow> 's match" where
  "boostPerformance reg m =
     (case getAdapterMetrics reg (m_name m) (m_version m) of
        VersionMap \<Rightarrow> m
      | Stats metrics \<Rightarrow>
          if pr_avgDuration metrics \<noteq> 0
          then (let speedBoost = 1000 / pr_avgDuration metrics
                in m\<lparr>m_score := m_score m * (1 + min (speedBoost * (1 / 10)) (3 / 10))\<rparr>)
          else m)"

text \<open>\<^verbatim>\<open>selectOptimalAdapter(requirements, preferences)\<close>; \<open>Inr None\<close> is the \<^verbatim>\<open>null\<close> of no match.\<close>

definition selectOptimalAdapter ::
  "'s registry \<Rightarrow> requirements \<Rightarrow> preferences \<Rightarrow> string + 's match option" where
  "selectOptimalAdapter reg req prefs =
     (case findMatchingAdapters reg req of
        Inl e \<Rightarrow> Inl e
      | Inr matches \<Rightarrow>
          if length matches = 0 then Inr None
          else
            (let preferred = (case pref_preferredAdapters prefs of
                                None \<Rightarrow> matches
                              | Some names \<Rightarrow> sortByScore (map (boostPreferred names) matches));
                 performed = (if pref_considerPerformance prefs
                              then sortByScore (map (boostPerformance reg) preferred)
                              else preferred)
             in Inr (Some (hd performed))))"

section \<open>Orchestration strategy engine\<close>

text \<open>
  \<^verbatim>\<open>OrchestrationStrategy\<close> runs a task through one adapter. Its strategy statistics and the
  notifications it emits are written and never read back by \<^verbatim>\<open>execute\<close>; they are left out,
  and listeners are taken not to throw. What \<^verbatim>\<open>execute\<close> returns or throws, the attempt
  trail, the calls made on the adapter and the elapsed virtual time are modelled.
\<close>

record chunkEvent =
  ce_chunk :: string
  ce_progress :: rat

record options =
  opt_strategies :: "string list option"
  opt_timeout :: "nat option"
  opt_orchestrationMode :: "string option"
  opt_onChunk :: "(chunkEvent \<Rightarrow> unit promise) option"
  opt_batchSize :: "nat option"

definition noOptions :: options where
  "noOptions = \<lparr>opt_strategies = None, opt_timeout = None, opt_orchestrationMode = None,
     opt_onChunk = None, opt_batchSize = None\<rparr>"

definition defaultStrategies :: "string list" where
  "defaultStrategies = [''subAgents'', ''parallel'', ''streaming'', ''batched'', ''sequential'']"

text \<open>The table \<^verbatim>\<open>this.timeouts\<close>, in milliseconds.\<close>

definition timeouts :: "string \<Rightarrow> nat option" where
  "timeouts strategy =
     (if strategy = ''subAgents'' then Some 300000
      else if strategy = ''parallel'' then Some 180000
      else if strategy = ''streaming'' then Some 120000
      else if strategy = ''batched'' then Some 90000
      else if strategy = ''sequential'' then Some 60000
      else None)"

text \<open>
  \<^verbatim>\<open>options.timeout || this.timeouts[strategy]\<close>. A name outside the table would give
  \<^verbatim>\<open>setTimeout\<close> an undefined delay, which fires after one millisecond; the chain never gets
  there, since such a name is not available.
\<close>

definition timeoutFor :: "options \<Rightarrow> string \<Rightarrow> nat" where
  "timeoutFor opts strategy =
     (case opt_timeout opts of
        Some (Suc n) \<Rightarrow> Suc n
      | _ \<Rightarrow> (case timeouts strategy of Some n \<Rightarrow> n | None \<Rightarrow> 1))"

subsection \<open>Promises\<close>

definition delay :: "nat \<Rightarrow> 'a promise \<Rightarrow> 'a promise" where
  "delay d p = (case p of None \<Rightarrow> None | Some (d', s) \<Rightarrow> Some (d + d', s))"

text \<open>
  \<^verbatim>\<open>Promise.all\<close> over promises that cannot reject: never settled while one of them is
  pending, otherwise settled when the slowest one is.
\<close>

fun promiseAll :: "(nat \<times> 'a) option list \<Rightarrow> (nat \<times> 'a list) option" where
  "promiseAll [] = Some (0, [])"
| "promiseAll (None # ps) = None"
| "promiseAll (Some (d, x) # ps) =
     (case promiseAll ps of None \<Rightarrow> None | Some (d', xs) \<Rightarrow> Some (max d d', x # xs))"

text \<open>
  \<^verbatim>\<open>_executeWithTimeout\<close>: the race between the strategy and the timer. The strategy is
  started before the timer is set, so it wins when it settles no later than the timer fires;
  the timer's rejection is \<^verbatim>\<open>Strategy timeout\<close>. The calls a strategy has already made on the
  adapter are not undone by its timeout.
\<close>

definition executeWithTimeout :: "'a promise \<Rightarrow> nat \<Rightarrow> nat \<times> 'a settled" where
  "executeWithTimeout p timeout =
     (case p of
        None \<Rightarrow> (timeout, Rejected ''Strategy timeout'')
      | Some (d, s) \<Rightarrow> if d \<le> timeout then (d, s) else (timeout, Rejected ''Strategy timeout''))"

subsection \<open>Task shape\<close>

text \<open>\<^verbatim>\<open>task.context?.files\<close> and \<^verbatim>\<open>task.context?.files?.length || 0\<close>.\<close>

definition filesOf :: "task \<Rightarrow> string list option" where
  "filesOf t = (case task_context t of None \<Rightarrow> None | Some c \<Rightarrow> ctx_files c)"

definition fileCount :: "task \<Rightarrow> nat" where
  "fileCount t = (case filesOf t of None \<Rightarrow> 0 | Some fs \<Rightarrow> length fs)"

text \<open>\<^verbatim>\<open>{...task, context: {...task.context, files: fs}}\<close>.\<close>

definition withFiles :: "task \<Rightarrow> string list \<Rightarrow> task" where
  "withFiles t fs =
     t\<lparr>task_context := Some
          (case task_context t of
             None \<Rightarrow> \<lparr>ctx_files = Some fs, ctx_content = None, ctx_code = None\<rparr>
           | Some c \<Rightarrow> c\<lparr>ctx_files := Some fs\<rparr>)\<rparr>"

text \<open>
  The loop \<^verbatim>\<open>for (let i = 0; i < xs.length; i += k) push(xs.slice(i, i + k))\<close>, each slice
  with its start index. Every caller passes a step of at least 1 (a \<^verbatim>\<open>x || default\<close> or the
  ceiling of a positive quotient); the source would not leave the loop with step 0, and the
  empty list the model gives there is never used.
\<close>

function slices :: "nat \<Rightarrow> nat \<Rightarrow> 'a list \<Rightarrow> (nat \<times> 'a list) list" where
  "slices k i xs =
     (if k = 0 \<or> length xs \<le> i then [] else (i, take k (drop i xs)) # slices k (i + k) xs)"
  by pat_completeness auto
termination
  by (relation "measure (\<lambda>(k, i, xs). length xs - i)") auto

declare slices.simps [simp del]

text \<open>A truthy string: present and not empty.\<close>

fun truthyString :: "string option \<Rightarrow> string option" where
  "truthyString (Some (c # cs)) = Some (c # cs)"
| "truthyString s = None"

text \<open>\<^verbatim>\<open>(config || {}).maxConcurrent || d\<close>, for a \<^verbatim>\<open>maxConcurrent\<close> that is a number when present.\<close>

definition maxConcurrentOr :: "jsval option \<Rightarrow> nat \<Rightarrow> nat" where
  "maxConcurrentOr config d =
     (case config of
        None \<Rightarrow> d
      | Some c \<Rightarrow> (case getProp ''maxConcurrent'' c of JNum (Suc n) \<Rightarrow> Suc n | _ \<Rightarrow> d))"

subsection \<open>Availability, suitability, explicit strategy\<close>

definition isStrategyAvailable :: "'s adapter \<Rightarrow> string \<Rightarrow> bool" where
  "isStrategyAvailable a strategy =
     (if strategy = ''subAgents'' then ad_supportsFeature a ''subAgents''
      else if strategy = ''parallel'' then ad_supportsFeature a ''parallelExecution''
      else if strategy = ''streaming'' then ad_supportsFeature a ''streaming''
      else if strategy = ''batched'' then True
      else if strategy = ''sequential'' then True
      else False)"

definition isStrategySuitable :: "string \<Rightarrow> task \<Rightarrow> bool" where
  "isStrategySuitable strategy t =
     (if strategy = ''subAgents''
      then task_complexity t = Some ''high''
           \<or> length (task_description t) > 500
           \<or> fileCount t > 5
      else if strategy = ''parallel''
      then fileCount t > 2 \<or> task_type t = ''validation'' \<or> task_type t = ''testing''
      else if strategy = ''streaming''
      then task_type t = ''generation''
           \<or> task_streaming t
           \<or> stringIncludes (task_description t) ''stream''
      else if strategy = ''batched'' then fileCount t > 10
      else if strategy = ''sequential'' then True
      else False)"

definition getExplicitStrategy :: "'s adapter \<Rightarrow> task \<Rightarrow> string option" where
  "getExplicitStrategy a t =
     (let vendorExt = (case task_extensions t of
                         None \<Rightarrow> None
                       | Some exts \<Rightarrow> map_of exts (ad_name a))
      in case (case vendorExt of
                 None \<Rightarrow> None
               | Some ext \<Rightarrow> truthyString (ext_executionStrategy ext)) of
           Some strategy \<Rightarrow> Some strategy
         | None \<Rightarrow> truthyString (task_executionStrategy t))"

subsection \<open>Decomposition and aggregation\<close>

definition decomposeForSubAgents :: "task \<Rightarrow> nat \<Rightarrow> task list" where
  "decomposeForSubAgents t maxAgents =
     take maxAgents
       (if task_type t = ''generation''
        then [t\<lparr>task_role := Some ''architect'', task_focus := Some ''design''\<rparr>,
              t\<lparr>task_role := Some ''implementer'', task_focus := Some ''code''\<rparr>,
              t\<lparr>task_role := Some ''reviewer'', task_focus := Some ''quality''\<rparr>]
        else if task_type t = ''refactoring''
        then [t\<lparr>task_role := Some ''analyzer'', task_focus := Some ''current-state''\<rparr>,
              t\<lparr>task_role := Some ''refactorer'', task_focus := Some ''improvements''\<rparr>,
              t\<lparr>task_role := Some ''validator'', task_focus := Some ''correctness''\<rparr>]
        else (case filesOf t of
                None \<Rightarrow> [t]
              | Some files \<Rightarrow>
                  if length files > 1
                  then (let filesPerAgent = (length files + maxAgents - 1) div maxAgents
                        in map (\<lambda>(i, fs). (withFiles t fs)\<lparr>task_id := task_id t @ ''-sub-'' @ showNat i\<rparr>)
                               (slices filesPerAgent 0 files))
                  else [t]))"

definition decomposeForParallel :: "task \<Rightarrow> task list" where
  "decomposeForParallel t =
     (case filesOf t of
        None \<Rightarrow> [t]
      | Some files \<Rightarrow>
          if length files > 1
          then map (\<lambda>(i, file). (withFiles t [file])\<lparr>task_id := task_id t @ ''-parallel-'' @ showNat i\<rparr>)
                   (zip [0..<length files] files)
          else [t])"

text \<open>\<^verbatim>\<open>r.error\<close> as a condition, \<^verbatim>\<open>r.output\<close> inside \<^verbatim>\<open>join\<close>, \<^verbatim>\<open>r.artifacts || []\<close>.\<close>

definition hasError :: "result \<Rightarrow> bool" where
  "hasError r = (truthyString (res_error r) \<noteq> None)"

definition outputText :: "result \<Rightarrow> string" where
  "outputText r = (case res_output r of None \<Rightarrow> [] | Some s \<Rightarrow> s)"

definition artifactsOf :: "result \<Rightarrow> string list" where
  "artifactsOf r = (case res_artifacts r of None \<Rightarrow> [] | Some xs \<Rightarrow> xs)"

definition separator :: string where
  "separator = CHR 0x0A # ''---'' @ [CHR 0x0A]"

text \<open>
  \<^verbatim>\<open>_aggregateParallelResults\<close>. It throws when nothing succeeded, and also when a failed
  entry is an adapter's own result with an \<^verbatim>\<open>error\<close> key: such an entry has no \<^verbatim>\<open>task\<close>, and
  \<^verbatim>\<open>f.task.id\<close> is a \<^verbatim>\<open>TypeError\<close>.
\<close>

definition aggregateParallelResults :: "result list \<Rightarrow> task \<Rightarrow> result settled" where
  "aggregateParallelResults results originalTask =
     (let successful = filter (\<lambda>r. \<not> hasError r) results;
          failed = filter hasError results
      in if length successful = 0 then Rejected ''All parallel tasks failed''
         else if \<exists>f \<in> set failed. res_task f = None
         then Rejected ''Cannot read properties of undefined''
         else Resolved
           \<lparr>res_taskId = Some (task_id originalTask),
            res_status = Some (if length failed > 0 then ''partial'' else ''completed''),
            res_output = Some (join separator (map outputText successful)),
            res_artifacts = Some (concat (map artifactsOf successful)),
            res_error = None,
            res_task = None,
            res_parallelResults = Some
              \<lparr>ps_successful = length successful,
               ps_failed = length failed,
               ps_failures = map (\<lambda>f. (case res_task f of None \<Rightarrow> [] | Some ft \<Rightarrow> task_id ft,
                                         case res_error f of None \<Rightarrow> [] | Some e \<Rightarrow> e)) failed\<rparr>,
            res_batchCount = None\<rparr>)"

definition aggregateBatchResults :: "result list \<Rightarrow> task \<Rightarrow> result" where
  "aggregateBatchResults results originalTask =
     \<lparr>res_taskId = Some (task_id originalTask),
      res_status = Some ''completed'',
      res_output = Some (join separator (map outputText results)),
      res_artifacts = Some (concat (map artifactsOf results)),
      res_error = None,
      res_task = None,
      res_parallelResults = None,
      res_batchCount = Some (length results)\<rparr>"

subsection \<open>The five strategies\<close>

definition executeSequentially :: "'s adapter \<Rightarrow> task \<Rightarrow> options \<Rightarrow> 's \<Rightarrow> result promise \<times> 's" where
  "executeSequentially a t opts st = ad_executeTask a st t"

definition executeWithSubAgents :: "'s adapter \<Rightarrow> task \<Rightarrow> options \<Rightarrow> 's \<Rightarrow> result promise \<times> 's" where
  "executeWithSubAgents a t opts st =
     (if \<not> ad_supportsFeature a ''subAgents''
      then (Some (0, Rejected ''Sub-agents not supported''), st)
      else
        (let maxConcurrent = maxConcurrentOr (ad_getFeatureConfig a ''subAgents'') 3;
             subtasks = decomposeForSubAgents t maxConcurrent;
             p = \<lparr>plan_orchestrationMode =
                    (case truthyString (opt_orchestrationMode opts) of
                       None \<Rightarrow> ''parallel'' | Some m \<Rightarrow> m),
                  plan_subtasks = subtasks,
                  plan_coordinatorRole = ''orchestrator'',
                  plan_coordinatorResponsibilities = [''task-decomposition'', ''result-aggregation''],
                  plan_agents =
                    map (\<lambda>(i, sub). \<lparr>agent_id = ''agent-'' @ showNat i,
                                      agent_role = (case truthyString (task_role sub) of
                                                      None \<Rightarrow> ''worker'' | Some r \<Rightarrow> r),
                                      agent_task = sub\<rparr>)
                        (zip [0..<length subtasks] subtasks)\<rparr>
         in case ad_executeWithSubAgents a of
              Some run \<Rightarrow> run st p
            | None \<Rightarrow> (Some (0, Rejected ''Sub-agent execution not implemented''), st)))"

text \<open>
  One batch of the parallel strategy: \<^verbatim>\<open>executeTask\<close> is called on every sub-task in order,
  a rejection becomes the object \<^verbatim>\<open>{error, task}\<close>, and \<^verbatim>\<open>Promise.all\<close> waits for all of them.
\<close>

fun startAll :: "'s adapter \<Rightarrow> task list \<Rightarrow> 's \<Rightarrow> (nat \<times> result) option list \<times> 's" where
  "startAll a [] st = ([], st)"
| "startAll a (t # ts) st =
     (case ad_executeTask a st t of
        (p, st1) \<Rightarrow>
          (case startAll a ts st1 of
             (ps, st2) \<Rightarrow>
               ((case p of
                   None \<Rightarrow> None
                 | Some (d, Resolved r) \<Rightarrow> Some (d, r)
                 | Some (d, Rejected m) \<Rightarrow>
                     Some (d, emptyResult\<lparr>res_error := Some m, res_task := Some t\<rparr>)) # ps, st2)))"

fun runBatches :: "'s adapter \<Rightarrow> task list list \<Rightarrow> 's \<Rightarrow> (nat \<times> result list) option \<times> 's" where
  "runBatches a [] st = (Some (0, []), st)"
| "runBatches a (batch # batches) st =
     (case startAll a batch st of
        (ps, st1) \<Rightarrow>
          (case promiseAll ps of
             None \<Rightarrow> (None, st1)
           | Some (d, batchResults) \<Rightarrow>
               (case runBatches a batches st1 of
                  (None, st2) \<Rightarrow> (None, st2)
                | (Some (d', results), st2) \<Rightarrow> (Some (d + d', batchResults @ results), st2))))"

definition executeInParallel :: "'s adapter \<Rightarrow> task \<Rightarrow> options \<Rightarrow> 's \<Rightarrow> result promise \<times> 's" where
  "executeInParallel a t opts st =
     (if \<not> ad_supportsFeature a ''parallelExecution''
      then (Some (0, Rejected ''Parallel execution not supported''), st)
      else
        (let parallelTasks = decomposeForParallel t
         in if length parallelTasks \<le> 1 then executeSequentially a t opts st
            else
              (let maxConcurrent = maxConcurrentOr (ad_getFeatureConfig a ''parallelExecution'') 5
               in case runBatches a (map snd (slices maxConcurrent 0 parallelTasks)) st of
                    (None, st') \<Rightarrow> (None, st')
                  | (Some (d, results), st') \<Rightarrow>
                      (Some (d, aggregateParallelResults results t), st'))))"

text \<open>The chunk callbacks of the simulated streaming, awaited one after the other.\<close>

fun emitChunks :: "(chunkEvent \<Rightarrow> unit promise) \<Rightarrow> chunkEvent list \<Rightarrow> unit promise" where
  "emitChunks onChunk [] = Some (0, Resolved ())"
| "emitChunks onChunk (c # cs) =
     (case onChunk c of
        None \<Rightarrow> None
      | Some (d, Rejected m) \<Rightarrow> Some (d, Rejected m)
      | Some (d, Resolved u) \<Rightarrow> delay d (emitChunks onChunk cs))"

definition executeWithStreaming :: "'s adapter \<Rightarrow> task \<Rightarrow> options \<Rightarrow> 's \<Rightarrow> result promise \<times> 's" where
  "executeWithStreaming a t opts st =
     (if \<not> ad_supportsFeature a ''streaming''
      then (Some (0, Rejected ''Streaming not supported''), st)
      else
        (case ad_executeWithStreaming a of
           Some run \<Rightarrow> run st (t\<lparr>task_streaming := True\<rparr>)
         | None \<Rightarrow>
             (case ad_executeTask a st t of
                (None, st') \<Rightarrow> (None, st')
              | (Some (d, Rejected m), st') \<Rightarrow> (Some (d, Rejected m), st')
              | (Some (d, Resolved r), st') \<Rightarrow>
                  (case (truthyString (res_output r), opt_onChunk opts) of
                     (Some output, Some onChunk) \<Rightarrow>
                       (case emitChunks onChunk
                               (map (\<lambda>(i, chunk). \<lparr>ce_chunk = chunk,
                                                    ce_progress = of_nat i / of_nat (length output)\<rparr>)
                                    (slices 1000 0 output)) of
                          None \<Rightarrow> (None, st')
                        | Some (d', Rejected m) \<Rightarrow> (Some (d + d', Rejected m), st')
                        | Some (d', Resolved u) \<Rightarrow> (Some (d + d', Resolved r), st'))
                   | _ \<Rightarrow> (Some (d, Resolved r), st')))))"

text \<open>The batches of the batched strategy, awaited one after the other; a rejection ends the loop.\<close>

fun executeEach :: "'s adapter \<Rightarrow> task list \<Rightarrow> 's \<Rightarrow> (result list) promise \<times> 's" where
  "executeEach a [] st = (Some (0, Resolved []), st)"
| "executeEach a (batch # batches) st =
     (case ad_executeTask a st batch of
        (None, st1) \<Rightarrow> (None, st1)
      | (Some (d, Rejected m), st1) \<Rightarrow> (Some (d, Rejected m), st1)
      | (Some (d, Resolved r), st1) \<Rightarrow>
          (case executeEach a batches st1 of
             (None, st2) \<Rightarrow> (None, st2)
           | (Some (d', Rejected m), st2) \<Rightarrow> (Some (d + d', Rejected m), st2)
           | (Some (d', Resolved rs), st2) \<Rightarrow> (Some (d + d', Resolved (r # rs)), st2)))"

definition executeInBatches :: "'s adapter \<Rightarrow> task \<Rightarrow> options \<Rightarrow> 's \<Rightarrow> result promise \<times> 's" where
  "executeInBatches a t opts st =
     (let batchSize = (case opt_batchSize opts of Some (Suc n) \<Rightarrow> Suc n | _ \<Rightarrow> 5)
      in case filesOf t of
           None \<Rightarrow> executeSequentially a t opts st
         | Some files \<Rightarrow>
             if length files \<le> batchSize then executeSequentially a t opts st
             else
               (case executeEach a
                       (map (\<lambda>(i, fs). (withFiles t fs)\<lparr>task_id := task_id t @ ''-batch-'' @ showNat i\<rparr>)
                            (slices batchSize 0 files)) st of
                  (None, st') \<Rightarrow> (None, st')
                | (Some (d, Rejected m), st') \<Rightarrow> (Some (d, Rejected m), st')
                | (Some (d, Resolved results), st') \<Rightarrow>
                    (Some (d, Resolved (aggregateBatchResults results t)), st')))"

text \<open>\<^verbatim>\<open>_executeStrategy\<close>: the \<^verbatim>\<open>switch\<close>, whose \<^verbatim>\<open>default\<close> shares the sequential case.\<close>

definition executeStrategy :: "'s adapter \<Rightarrow> string \<Rightarrow> task \<Rightarrow> options \<Rightarrow> 's \<Rightarrow> result promise \<times> 's" where
  "executeStrategy a strategy t opts st =
     (if strategy = ''subAgents'' then executeWithSubAgents a t opts st
      else if strategy = ''parallel'' then executeInParallel a t opts st
      else if strategy = ''streaming'' then executeWithStreaming a t opts st
      else if strategy = ''batched'' then executeInBatches a t opts st
      else executeSequentially a t opts st)"

subsection \<open>The fallback chain\<close>

record attempt =
  att_strategy :: string
  att_status :: string
  att_reason :: "string option"
  att_error :: "string option"
  att_duration :: nat

text \<open>
  What \<^verbatim>\<open>execute\<close> resolves with: the keys of the strategy's result and, when the code adds
  them, \<^verbatim>\<open>strategy\<close>, \<^verbatim>\<open>attempts\<close> and \<^verbatim>\<open>totalDuration\<close> (\<open>None\<close>: the key is absent). An adapter
  result has no keys of these names of its own.
\<close>

record execution =
  exec_result :: result
  exec_strategy :: "string option"
  exec_attempts :: "attempt list option"
  exec_totalDuration :: "nat option"

text \<open>\<open>Thrown\<close> carries the error's \<^verbatim>\<open>message\<close>, \<^verbatim>\<open>attempts\<close> and \<^verbatim>\<open>duration\<close>.\<close>

datatype outcome = Returned execution | Thrown string "attempt list" nat

definition skippedAttempt :: "string \<Rightarrow> string \<Rightarrow> attempt" where
  "skippedAttempt strategy reason =
     \<lparr>att_strategy = strategy, att_status = ''skipped'', att_reason = Some reason,
      att_error = None, att_duration = 0\<rparr>"

definition successAttempt :: "string \<Rightarrow> nat \<Rightarrow> attempt" where
  "successAttempt strategy duration =
     \<lparr>att_strategy = strategy, att_status = ''success'', att_reason = None,
      att_error = None, att_duration = duration\<rparr>"

definition failedAttempt :: "string \<Rightarrow> string \<Rightarrow> nat \<Rightarrow> attempt" where
  "failedAttempt strategy message duration =
     \<lparr>att_strategy = strategy, att_status = ''failed'', att_reason = None,
      att_error = Some message, att_duration = duration\<rparr>"

text \<open>
  The loop \<^verbatim>\<open>for (const strategy of strategies)\<close> of \<^verbatim>\<open>execute\<close> and what follows it.
  \<open>attempts\<close> is the array built so far, \<open>elapsed\<close> the time since \<^verbatim>\<open>startTime\<close>.
\<close>

fun tryStrategies ::
  "'s adapter \<Rightarrow> task \<Rightarrow> options \<Rightarrow> string list \<Rightarrow> attempt list \<Rightarrow> nat \<Rightarrow> 's \<Rightarrow> outcome \<times> 's" where
  "tryStrategies a t opts [] attempts elapsed st =
     (Thrown ''All execution strategies failed'' attempts elapsed, st)"
| "tryStrategies a t opts (strategy # rest) attempts elapsed st =
     (if \<not> isStrategyAvailable a strategy
      then tryStrategies a t opts rest
             (attempts @ [skippedAttempt strategy ''Not available'']) elapsed st
      else if \<not> isStrategySuitable strategy t
      then tryStrategies a t opts rest
             (attempts @ [skippedAttempt strategy ''Not suitable for task'']) elapsed st
      else
        (case executeStrategy a strategy t opts st of
           (p, st') \<Rightarrow>
             (case executeWithTimeout p (timeoutFor opts strategy) of
                (duration, Resolved r) \<Rightarrow>
                  (Returned \<lparr>exec_result = r,
                             exec_strategy = Some strategy,
                             exec_attempts = Some (attempts @ [successAttempt strategy duration]),
                             exec_totalDuration = Some (elapsed + duration)\<rparr>, st')
              | (duration, Rejected message) \<Rightarrow>
                  tryStrategies a t opts rest
                    (attempts @ [failedAttempt strategy message duration])
                    (elapsed + duration) st')))"

text \<open>
  \<^verbatim>\<open>execute(task, options)\<close>. \<open>None\<close>: the promise never settles, which can only come from
  the explicit strategy, awaited without a timer. A result of the explicit strategy is
  returned as it is.
\<close>

definition execute :: "'s adapter \<Rightarrow> task \<Rightarrow> options \<Rightarrow> 's \<Rightarrow> outcome option \<times> 's" where
  "execute a t opts st =
     (let strategies = (case opt_strategies opts of None \<Rightarrow> defaultStrategies | Some ss \<Rightarrow> ss)
      in case getExplicitStrategy a t of
           None \<Rightarrow>
             (case tryStrategies a t opts strategies [] 0 st of (out, st') \<Rightarrow> (Some out, st'))
         | Some explicitStrategy \<Rightarrow>
             (case executeStrategy a explicitStrategy t opts st of
                (None, st') \<Rightarrow> (None, st')
              | (Some (d, Resolved r), st') \<Rightarrow>
                  (Some (Returned \<lparr>exec_result = r, exec_strategy = None,
                                   exec_attempts = None, exec_totalDuration = None\<rparr>), st')
              | (Some (d, Rejected message), st') \<Rightarrow>
                  (case tryStrategies a t opts strategies [] d st' of
                     (out, st'') \<Rightarrow> (Some out, st''))))"

text \<open>Readings of an outcome: the strategy it names, and its trail as strategy/status pairs.\<close>

definition resolvedVia :: "outcome option \<Rightarrow> string option" where
  "resolvedVia out = (case out of Some (Returned x) \<Rightarrow> exec_strategy x | _ \<Rightarrow> None)"

definition trailOf :: "outcome option \<Rightarrow> attempt list option" where
  "trailOf out =
     (case out of
        Some (Returned x) \<Rightarrow> exec_attempts x
      | Some (Thrown message attempts duration) \<Rightarrow> Some attempts
      | None \<Rightarrow> None)"

definition entryOf :: "attempt \<Rightarrow> string \<times> string" where
  "entryOf att = (att_strategy att, att_status att)"

section \<open>Task router\<close>

subsection \<open>Analysing a task\<close>

text \<open>
  \<^verbatim>\<open>description.toLowerCase()\<close> on ASCII text, and the class \<^verbatim>\<open>\w\<close> that decides the word
  boundaries \<^verbatim>\<open>\b\<close> of the language patterns.
\<close>

definition toLowerChar :: "char \<Rightarrow> char" where
  "toLowerChar c =
     (case map_of (zip ''ABCDEFGHIJKLMNOPQRSTUVWXYZ'' ''abcdefghijklmnopqrstuvwxyz'') c of
        Some lower \<Rightarrow> lower
      | None \<Rightarrow> c)"

definition toLowerCase :: "string \<Rightarrow> string" where
  "toLowerCase s = map toLowerChar s"

definition isWordChar :: "char \<Rightarrow> bool" where
  "isWordChar c \<longleftrightarrow>
     c \<in> set ''abcdefghijklmnopqrstuvwxyzABCDEFGHIJKLMNOPQRSTUVWXYZ0123456789_''"

text \<open>
  \<^verbatim>\<open>/\b(w1|w2|...)\b/.test(d)\<close>: some alternative occurs in \<open>d\<close> with a word boundary on
  both sides. A boundary lies between a word character and a non-word character (or an end
  of the text). \<open>prevWord\<close> tells whether the character before the position is a word
  character.
\<close>

definition boundaryBefore :: "bool \<Rightarrow> string \<Rightarrow> bool" where
  "boundaryBefore prevWord rest =
     (prevWord \<noteq> (case rest of [] \<Rightarrow> False | c # cs \<Rightarrow> isWordChar c))"

definition wordAt :: "bool \<Rightarrow> string \<Rightarrow> string \<Rightarrow> bool" where
  "wordAt prevWord s w =
     (if startsWith s w
      then boundaryBefore prevWord s
           \<and> boundaryBefore (if w = [] then prevWord else isWordChar (last w))
                 (drop (length w) s)
      else False)"

fun scanFor :: "bool \<Rightarrow> string \<Rightarrow> string \<Rightarrow> bool" where
  "scanFor prevWord [] w = wordAt prevWord [] w"
| "scanFor prevWord (c # cs) w = (wordAt prevWord (c # cs) w \<or> scanFor (isWordChar c) cs w)"

definition testWords :: "string list \<Rightarrow> string \<Rightarrow> bool" where
  "testWords ws d = (\<exists>w \<in> set ws. scanFor False d w)"

definition languagePatterns :: "(string \<times> string list) list" where
  "languagePatterns =
     [(''javascript'', [''javascript'', ''js'', ''node'', ''npm'']),
      (''typescript'', [''typescript'', ''ts'', ''tsx'']),
      (''python'', [''python'', ''py'', ''pip'']),
      (''java'', [''java'', ''maven'', ''gradle'']),
      (''go'', [''go'', ''golang'']),
      (''rust'', [''rust'', ''cargo'']),
      (''c++'', [''c++'', ''cpp''])]"

definition taskTypeFeatures :: "(string \<times> string list) list" where
  "taskTypeFeatures =
     [(''comprehension'', [''comprehension'', ''explanation'']),
      (''generation'', [''generation'', ''refactoring'']),
      (''validation'', [''validation'', ''testing'']),
      (''exploration'', [''exploration'', ''debugging'']),
      (''refactoring'', [''refactoring'', ''generation'']),
      (''testing'', [''testing'', ''generation'']),
      (''documentation'', [''documentation'', ''generation''])]"

text \<open>\<^verbatim>\<open>_estimateContextSize\<close>: 500 tokens per file, one token per four characters.\<close>

definition estimateContextSize :: "taskContext \<Rightarrow> nat" where
  "estimateContextSize c =
     (case ctx_files c of None \<Rightarrow> 0 | Some fs \<Rightarrow> length fs * 500)
     + (case truthyString (ctx_content c) of None \<Rightarrow> 0 | Some s \<Rightarrow> (length s + 3) div 4)
     + (case truthyString (ctx_code c) of None \<Rightarrow> 0 | Some s \<Rightarrow> (length s + 3) div 4)"

definition analyzeTask :: "task \<Rightarrow> requirements" where
  "analyzeTask t =
     (let description = toLowerCase (task_description t);
          exts = (case task_extensions t of None \<Rightarrow> [] | Some es \<Rightarrow> map snd es)
      in \<lparr>req_features = Some (dedupe
              ((case map_of taskTypeFeatures (task_type t) of None \<Rightarrow> [] | Some fs \<Rightarrow> fs)
               @ concat (map (\<lambda>ext. case ext_features ext of None \<Rightarrow> [] | Some fs \<Rightarrow> fs) exts))),
          req_minContextTokens =
            (case task_context t of None \<Rightarrow> 0 | Some c \<Rightarrow> estimateContextSize c),
          req_languages = Some
            (map fst (filter (\<lambda>(lang, ws). testWords ws description) languagePatterns)),
          req_multiFile =
            (case task_context t of
               None \<Rightarrow> False
             | Some c \<Rightarrow> (case ctx_files c of None \<Rightarrow> False | Some fs \<Rightarrow> length fs > 1)),
          req_streaming =
            (stringIncludes description ''stream'' \<or> stringIncludes description ''real-time''
             \<or> (\<exists>ext \<in> set exts. ext_streaming ext)),
          req_subAgents =
            (stringIncludes description ''delegate'' \<or> stringIncludes description ''sub-agent''
             \<or> stringIncludes description ''parallel'' \<or> stringIncludes description ''distribute''
             \<or> (\<exists>ext \<in> set exts. ext_subAgents ext))\<rparr>)"

subsection \<open>Choosing a strategy\<close>

text \<open>The loop of \<^verbatim>\<open>_selectStrategy\<close> over \<^verbatim>\<open>preferences.fallbackStrategies\<close>.\<close>

fun pickStrategy :: "'s adapter \<Rightarrow> requirements \<Rightarrow> string list \<Rightarrow> string" where
  "pickStrategy a req [] = ''sequential''"
| "pickStrategy a req (strategy # rest) =
     (if strategy = ''subAgents''
      then (if req_subAgents req \<and> ad_supportsFeature a ''subAgents'' then ''subAgents''
            else pickStrategy a req rest)
      else if strategy = ''parallel''
      then (if ad_supportsFeature a ''parallelExecution'' then ''parallel''
            else pickStrategy a req rest)
      else if strategy = ''streaming''
      then (if req_streaming req \<and> ad_supportsFeature a ''streaming'' then ''streaming''
            else pickStrategy a req rest)
      else if strategy = ''sequential'' then ''sequential''
      else pickStrategy a req rest)"

definition selectStrategy :: "'s adapter \<Rightarrow> task \<Rightarrow> requirements \<Rightarrow> preferences \<Rightarrow> string" where
  "selectStrategy a t req prefs =
     (case (case ad_getVendorExtensions a of
              None \<Rightarrow> None
            | Some getExt \<Rightarrow>
                (case getExt t (ad_name a) of
                   None \<Rightarrow> None
                 | Some ext \<Rightarrow> truthyString (ext_executionStrategy ext))) of
        Some strategy \<Rightarrow> strategy
      | None \<Rightarrow> pickStrategy a req (pref_fallbackStrategies prefs))"

subsection \<open>The routing cache\<close>

text \<open>
  The cache key is the JSON text of the task type, the sorted features, the context size in
  thousands, the sorted languages and the three flags; the model keeps the record that the
  text renders.
\<close>

record cacheKey =
  key_type :: string
  key_features :: "string list"
  key_contextSize :: nat
  key_languages :: "string list"
  key_multiFile :: bool
  key_streaming :: bool
  key_subAgents :: bool

definition generateCacheKey :: "task \<Rightarrow> cacheKey" where
  "generateCacheKey t =
     (let requirements = analyzeTask t
      in \<lparr>key_type = task_type t,
          key_features = sort (case req_features requirements of None \<Rightarrow> [] | Some fs \<Rightarrow> fs),
          key_contextSize = req_minContextTokens requirements div 1000,
          key_languages = sort (case req_languages requirements of None \<Rightarrow> [] | Some ls \<Rightarrow> ls),
          key_multiFile = req_multiFile requirements,
          key_streaming = req_streaming requirements,
          key_subAgents = req_subAgents requirements\<rparr>)"

text \<open>
  A routing decision. \<open>rd_ref\<close> is the identity of the object: the number of decision objects
  the router had created before this one. Two decisions with the same \<open>rd_ref\<close> are the same
  object.
\<close>

record 's routingDecision =
  rd_ref :: nat
  rd_adapter :: "'s adapter"
  rd_adapterName :: string
  rd_adapterVersion :: string
  rd_strategy :: string
  rd_requirements :: requirements
  rd_score :: rat
  rd_timestamp :: nat

text \<open>What the router emits: \<^verbatim>\<open>route:cache-hit\<close>, \<^verbatim>\<open>task:routed\<close>, \<^verbatim>\<open>cache:cleared\<close>.\<close>

datatype routerEvent =
    CacheHit string string
  | TaskRouted string string string string string
  | CacheCleared nat

text \<open>
  The router: its preferences, the \<^verbatim>\<open>_routingCache\<close>, the events emitted so far, the number
  of decision objects created so far, and the reading of the clock at the last call.
  \<^verbatim>\<open>Date.now()\<close> is that reading plus the time that has passed since, which every call
  receives as \<open>elapsed\<close>. The registry is an object of its own; a call sees it in the state it
  has at that moment.
\<close>

record 's router =
  rt_preferences :: preferences
  rt_cache :: "(cacheKey \<times> 's routingDecision) list"
  rt_events :: "routerEvent list"
  rt_allocated :: nat
  rt_clock :: nat

definition defaultPreferences :: preferences where
  "defaultPreferences =
     \<lparr>pref_preferredAdapters = Some [],
      pref_considerPerformance = True,
      pref_fallbackStrategies = [''subAgents'', ''parallel'', ''streaming'', ''sequential'']\<rparr>"

definition newRouter :: "preferences \<Rightarrow> 's router" where
  "newRouter prefs = \<lparr>rt_preferences = prefs, rt_cache = [], rt_events = [],
     rt_allocated = 0, rt_clock = 0\<rparr>"

definition cacheTTL :: nat where
  "cacheTTL = 5 * 60 * 1000"

text \<open>\<^verbatim>\<open>_getCachedRoute(key)\<close> at time \<open>now\<close>: an entry older than the TTL is deleted.\<close>

definition getCachedRoute ::
  "cacheKey \<Rightarrow> nat \<Rightarrow> 's router \<Rightarrow> 's routingDecision option \<times> 's router" where
  "getCachedRoute key now rt =
     (case map_of (rt_cache rt) key of
        None \<Rightarrow> (None, rt)
      | Some cached \<Rightarrow>
          if int now - int (rd_timestamp cached) > int cacheTTL
          then (None, rt\<lparr>rt_cache := AList.delete key (rt_cache rt)\<rparr>)
          else (Some cached, rt))"

text \<open>
  \<^verbatim>\<open>_cacheRoute(key, route)\<close>: beyond 1000 entries, the first 100 entries in the order of
  their timestamps (a stable sort) are deleted.
\<close>

definition cacheRoute :: "cacheKey \<Rightarrow> 's routingDecision \<Rightarrow> 's router \<Rightarrow> 's router" where
  "cacheRoute key decision rt =
     (let cache = AList.update key decision (rt_cache rt)
      in if length cache > 1000
         then rt\<lparr>rt_cache :=
                   foldl (\<lambda>c k. AList.delete k c) cache
                     (map fst (take 100 (sort_key (\<lambda>entry. rd_timestamp (snd entry)) cache)))\<rparr>
         else rt\<lparr>rt_cache := cache\<rparr>)"

definition clearCache :: "nat \<Rightarrow> 's router \<Rightarrow> 's router" where
  "clearCache elapsed rt =
     rt\<lparr>rt_cache := [],
        rt_clock := rt_clock rt + elapsed,
        rt_events := rt_events rt @ [CacheCleared (rt_clock rt + elapsed)]\<rparr>"

text \<open>
  \<^verbatim>\<open>route(task)\<close>, called \<open>elapsed\<close> milliseconds after the previous call, with the registry
  in state \<open>reg\<close>. \<open>Inl\<close> is the error the returned promise rejects with.
\<close>

definition route ::
  "'s registry \<Rightarrow> nat \<Rightarrow> task \<Rightarrow> 's router \<Rightarrow> (string + 's routingDecision) \<times> 's router" where
  "route reg elapsed t rt0 =
     (let now = rt_clock rt0 + elapsed;
          rt = rt0\<lparr>rt_clock := now\<rparr>;
          cacheKey = generateCacheKey t
      in case getCachedRoute cacheKey now rt of
           (Some cached, rt1) \<Rightarrow>
             (Inr cached,
              rt1\<lparr>rt_events := rt_events rt1 @ [CacheHit (task_id t) (ad_name (rd_adapter cached))]\<rparr>)
         | (None, rt1) \<Rightarrow>
             (let requirements = analyzeTask t
              in case selectOptimalAdapter reg requirements (rt_preferences rt1) of
                   Inl e \<Rightarrow> (Inl e, rt1)
                 | Inr None \<Rightarrow> (Inl ''No suitable adapter found for task requirements'', rt1)
                 | Inr (Some selection) \<Rightarrow>
                     (let strategy = selectStrategy (m_adapter selection) t requirements
                                       (rt_preferences rt1);
                          routingDecision =
                            \<lparr>rd_ref = rt_allocated rt1,
                             rd_adapter = m_adapter selection,
                             rd_adapterName = m_name selection,
                             rd_adapterVersion = m_version selection,
                             rd_strategy = strategy,
                             rd_requirements = requirements,
                             rd_score = m_score selection,
                             rd_timestamp = now\<rparr>;
                          rt2 = cacheRoute cacheKey routingDecision
                                  (rt1\<lparr>rt_allocated := Suc (rt_allocated rt1)\<rparr>)
                      in (Inr routingDecision,
                          rt2\<lparr>rt_events := rt_events rt2
                                 @ [TaskRouted (task_id t) (task_type t) (m_name selection)
                                      (m_version selection) strategy]\<rparr>))))"

text \<open>A history of calls on a new router.\<close>

datatype 's routerCall = Route "'s registry" nat task | ClearCache nat

fun applyRouterCall :: "'s router \<Rightarrow> 's routerCall \<Rightarrow> 's router" where
  "applyRouterCall rt (Route reg elapsed t) = snd (route reg elapsed t rt)"
| "applyRouterCall rt (ClearCache elapsed) = clearCache elapsed rt"

definition runRouter :: "preferences \<Rightarrow> 's routerCall list \<Rightarrow> 's router" where
  "runRouter prefs calls = foldl applyRouterCall (newRouter prefs) calls"

text \<open>No cached decision is stamped later than the clock reads.\<close>

definition wellTimed :: "'s router \<Rightarrow> bool" where
  "wellTimed rt \<longleftrightarrow> (\<forall>entry \<in> set (rt_cache rt). rd_timestamp (snd entry) \<le> rt_clock rt)"

section \<open>Adapters of the package\<close>

text \<open>
  An adapter that inherits \<^verbatim>\<open>supportsFeature\<close>, \<^verbatim>\<open>getFeatureConfig\<close> and
  \<^verbatim>\<open>getVendorExtensions\<close> from the base class \<^verbatim>\<open>AIAgentAdapter\<close>. The base class also supplies
  \<^verbatim>\<open>executeWithSubAgents\<close> and \<^verbatim>\<open>executeWithStreaming\<close>, both rejecting with "not
  implemented"; \<^verbatim>\<open>executeTask\<close> is the subclass's.
\<close>

definition AIAgentAdapter ::
  "string \<Rightarrow> string option \<Rightarrow> capabilityProfile option \<Rightarrow> ('s \<Rightarrow> task \<Rightarrow> result promise \<times> 's) \<Rightarrow> 's adapter" where
  "AIAgentAdapter name apiVersion caps exec =
     \<lparr>ad_name = name,
      ad_apiVersion = apiVersion,
      ad_capabilities = caps,
      ad_supportsFeature = AIAgentAdapter_supportsFeature caps,
      ad_getFeatureConfig = AIAgentAdapter_getFeatureConfig caps,
      ad_getVendorExtensions = Some AIAgentAdapter_getVendorExtensions,
      ad_executeTask = exec,
      ad_executeWithSubAgents =
        Some (\<lambda>st p. (Some (0, Rejected ''executeWithSubAgents not implemented''), st)),
      ad_executeWithStreaming =
        Some (\<lambda>st t. (Some (0, Rejected ''executeWithStreaming not implemented''), st))\<rparr>"

text \<open>The capability profiles of \<^verbatim>\<open>ClaudeCodeAdapter\<close> and of the Gemini example adapter.\<close>

definition claudeCodeCapabilities :: capabilityProfile where
  "claudeCodeCapabilities =
     \<lparr>cap_maxContextTokens = 200000,
      cap_supportedLanguages = [''javascript'', ''typescript'', ''python'', ''java'', ''go'',
        ''rust'', ''c++'', ''bash'', ''sql'', ''html'', ''css''],
      cap_multiFile = True,
      cap_streaming = True,
      cap_subAgents = Some \<lparr>sa_supported = False, sa_maxConcurrent = Some 1,
                             sa_delegationTypes = Some []\<rparr>,
      cap_features =
        [(''tmuxExecution'', Detailed True (JObj [(''maxSessions'', JNum 10)])),
         (''localExecution'', Detailed True (JObj [(''workspaceRequired'', JBool True)])),
         (''scheduleIntegration'', Detailed True (JObj [(''supportsTemplates'', JBool True)])),
         (''deviceAuth'', Detailed True (JObj [(''requiresRegistration'', JBool True)])),
         (''realTimeProgress'', Detailed True (JObj [(''updateInterval'', JNum 1000)])),
         (''resultCapture'', Detailed True (JObj [(''includeArtifacts'', JBool True)]))]\<rparr>"

definition geminiCapabilities :: capabilityProfile where
  "geminiCapabilities =
     \<lparr>cap_maxContextTokens = 1000000,
      cap_supportedLanguages = [''javascript'', ''typescript'', ''python'', ''java'', ''go'',
        ''rust'', ''c++''],
      cap_multiFile = True,
      cap_streaming = True,
      cap_subAgents = Some \<lparr>sa_supported = False, sa_maxConcurrent = Some 0,
                             sa_delegationTypes = Some []\<rparr>,
      cap_features =
        [(''generation'', Flag True), (''refactoring'', Flag True), (''explanation'', Flag True),
         (''debugging'', Flag True), (''translation'', Flag True), (''comprehension'', Flag True),
         (''validation'', Flag True), (''exploration'', Flag True), (''testing'', Flag True),
         (''documentation'', Flag True),
         (''visionSupport'', Detailed True
            (JObj [(''supportedFormats'', JArr [JStr ''png'', JStr ''jpg'', JStr ''jpeg'', JStr ''webp'']),
                   (''maxImageSize'', JNum 20971520)])),
         (''parallelExecution'', Detailed True (JObj [(''maxConcurrent'', JNum 5)])),
         (''codeExecution'', Detailed True
            (JObj [(''languages'', JArr [JStr ''python'', JStr ''javascript''])]))]\<rparr>"

text \<open>An adapter whose \<^verbatim>\<open>executeTask\<close> resolves at once, echoing the task id; it keeps no state.\<close>

definition completes :: "unit \<Rightarrow> task \<Rightarrow> result promise \<times> unit" where
  "completes st t =
     (Some (0, Resolved (emptyResult\<lparr>res_taskId := Some (task_id t),
                                      res_status := Some ''completed'',
                                      res_output := Some ''Result''\<rparr>)), st)"

definition claudeCode :: "unit adapter" where
  "claudeCode = AIAgentAdapter ''claude-code'' (Some ''1.0.77'') (Some claudeCodeCapabilities) completes"

definition gemini :: "unit adapter" where
  "gemini = AIAgentAdapter ''gemini-cli'' (Some ''2.0.0'') (Some geminiCapabilities) completes"

text \<open>Requirement profiles and a registry used to run the definitions.\<close>

definition noRequirements :: requirements where
  "noRequirements = \<lparr>req_features = None, req_minContextTokens = 0, req_languages = None,
     req_multiFile = False, req_streaming = False, req_subAgents = False\<rparr>"

definition bothAdapters :: "unit registry" where
  "bothAdapters = runCalls
     [Register ''claude-code'' (Some claudeCode) None True,
      Register ''gemini-cli'' (Some gemini) None True]"

definition needsGeneration :: requirements where
  "needsGeneration = noRequirements\<lparr>req_features := Some [''generation'']\<rparr>"

definition needsCobol :: requirements where
  "needsCobol = noRequirements\<lparr>req_features := Some [''generation''],
     req_languages := Some [''javascript'', ''cobol'']\<rparr>"

definition versionCalls :: "unit registryCall list" where
  "versionCalls =
     [Register ''gemini-cli'' (Some gemini) (Some ''1.0.0'') False,
      Register ''gemini-cli'' (Some gemini) (Some ''2.0.0'') False,
      Unregister ''gemini-cli'' (Some ''1.0.0'')]"

definition collidingCalls :: "unit registryCall list" where
  "collidingCalls =
     [Register ''gemini-cli'' (Some gemini) None True,
      Register ''gemini-cli:2.0.0'' (Some gemini) (Some ''nightly'') True]"

text \<open>
  One execution recorded for the pair \<^verbatim>\<open>('openai:gpt', '4.0')\<close>; the pair
  \<^verbatim>\<open>('openai', 'gpt:4.0')\<close> composes to the same key.
\<close>

definition collidingRecord :: "unit registryCall list" where
  "collidingRecord = [Record ''openai:gpt'' ''4.0'' (Some 1200) False 7]"


text \<open>
  The adapter of the package's degradation tests: a stub object named \<^verbatim>\<open>test-adapter\<close> whose
  state is the number of \<^verbatim>\<open>executeTask\<close> calls made so far. \<open>supported\<close> lists the features for
  which \<^verbatim>\<open>supportsFeature\<close> answers true; the two optional entry points are stubs that resolve
  at once.
\<close>

definition completed :: result where
  "completed = emptyResult\<lparr>res_status := Some ''completed''\<rparr>"

definition mockAdapter :: "string list \<Rightarrow> (nat \<Rightarrow> task \<Rightarrow> result promise) \<Rightarrow> nat adapter" where
  "mockAdapter supported executeTaskStub =
     \<lparr>ad_name = ''test-adapter'',
      ad_apiVersion = None,
      ad_capabilities = None,
      ad_supportsFeature = (\<lambda>feature. feature \<in> set supported),
      ad_getFeatureConfig = (\<lambda>feature. None),
      ad_getVendorExtensions = None,
      ad_executeTask = (\<lambda>calls t. (executeTaskStub calls t, Suc calls)),
      ad_executeWithSubAgents = Some (\<lambda>calls p. (Some (0, Resolved emptyResult), calls)),
      ad_executeWithStreaming = Some (\<lambda>calls t. (Some (0, Resolved completed), calls))\<rparr>"

definition plainTask :: "string \<Rightarrow> string \<Rightarrow> string \<Rightarrow> task" where
  "plainTask ident typ description =
     \<lparr>task_id = ident, task_type = typ, task_description = description,
      task_context = None, task_extensions = None, task_complexity = None,
      task_streaming = False, task_executionStrategy = None,
      task_role = None, task_focus = None\<rparr>"

definition alwaysCompletes :: "nat \<Rightarrow> task \<Rightarrow> result promise" where
  "alwaysCompletes calls t = Some (0, Resolved (completed\<lparr>res_output := Some ''Result''\<rparr>))"

text \<open>The task of the test "should batch large file sets": 25 context files.\<close>

definition largeTask :: task where
  "largeTask = withFiles (plainTask ''large-1'' ''analysis'' ''Analyze many files'')
     [''file0.js'', ''file1.js'', ''file2.js'', ''file3.js'', ''file4.js'',
      ''file5.js'', ''file6.js'', ''file7.js'', ''file8.js'', ''file9.js'',
      ''file10.js'', ''file11.js'', ''file12.js'', ''file13.js'', ''file14.js'',
      ''file15.js'', ''file16.js'', ''file17.js'', ''file18.js'', ''file19.js'',
      ''file20.js'', ''file21.js'', ''file22.js'', ''file23.js'', ''file24.js'']"

text \<open>The task of the test "should try strategies in order until one succeeds".\<close>

definition threeFileTask :: task where
  "threeFileTask = withFiles (plainTask ''test-1'' ''generation'' ''Test task'')
     [''file1.js'', ''file2.js'', ''file3.js'']"

text \<open>The task of the test "should honor explicit strategy in vendor extensions".\<close>

definition explicitStreamingTask :: task where
  "explicitStreamingTask =
     (plainTask ''explicit-1'' ''generation'' ''Task with explicit strategy'')
       \<lparr>task_extensions := Some [(''test-adapter'',
           \<lparr>ext_executionStrategy = Some ''streaming'', ext_subAgents = False,
            ext_streaming = False, ext_features = None\<rparr>)]\<rparr>"

text \<open>
  The task of the test "should fall back if explicit strategy fails", and its stub: the
  first \<^verbatim>\<open>executeTask\<close> call rejects, the later ones resolve.
\<close>

definition explicitParallelTask :: task where
  "explicitParallelTask =
     (plainTask ''explicit-2'' ''generation'' ''Task with failing explicit strategy'')
       \<lparr>task_executionStrategy := Some ''parallel''\<rparr>"

definition failsFirst :: "nat \<Rightarrow> task \<Rightarrow> result promise" where
  "failsFirst calls t =
     (if calls = 0 then Some (0, Rejected ''Parallel failed'') else Some (0, Resolved completed))"

text \<open>
  A task with an explicit parallel strategy and three files, and an adapter that cannot
  complete a single-file sub-task but completes the task as a whole.
\<close>

definition explicitParallelFiles :: task where
  "explicitParallelFiles = withFiles explicitParallelTask [''a.js'', ''b.js'', ''c.js'']"


text \<open>
  A task naming a strategy the engine does not know, and an adapter that needs 100 seconds,
  more than the 60 seconds the chain allows the sequential strategy.
\<close>

definition turboTask :: task where
  "turboTask = (plainTask ''turbo-1'' ''analysis'' ''Analyze'')\<lparr>task_executionStrategy := Some ''turbo''\<rparr>"

definition slowly :: "nat \<Rightarrow> task \<Rightarrow> result promise" where
  "slowly calls t = Some (100000, Resolved completed)"

text \<open>
  Two tasks of different identity and wording that analyse to the same requirement profile,
  hence to the same cache key.
\<close>

definition componentTask :: task where
  "componentTask = withFiles
     (plainTask ''task-a'' ''generation'' ''Generate TypeScript components'')
     [''a.ts'', ''b.ts'', ''c.ts'']"

definition widgetTask :: task where
  "widgetTask = withFiles
     (plainTask ''task-b'' ''generation'' ''Write the widgets in TypeScript'')
     [''x.ts'', ''y.ts'', ''z.ts'']"

text \<open>The decision the router creates for \<open>componentTask\<close> on a new router, five milliseconds in.\<close>

definition firstDecision :: "unit routingDecision" where
  "firstDecision =
     \<lparr>rd_ref = 0, rd_adapter = gemini, rd_adapterName = ''gemini-cli'',
      rd_adapterVersion = ''2.0.0'', rd_strategy = ''parallel'',
      rd_requirements = analyzeTask componentTask, rd_score = 38, rd_timestamp = 5\<rparr>"

section \<open>Evaluation rules\<close>

lemmas adapter_defs = AIAgentAdapter_def AIAgentAdapter_supportsFeature_def
  AIAgentAdapter_getFeatureConfig_def supportsFeatureObj_def capsObject_def subAgentsObject_def
  claudeCodeCapabilities_def geminiCapabilities_def splitParent_def splitChild_def

lemmas score_defs = calculateCapabilityScore_def scoreTally_def finalScore_def checkFeatures_def
  checkFeature_def checkContextWindow_def checkLanguages_def checkCapability_def
  capabilityChecks_def requirementFlag_def noRequirements_def

lemma claudeCode_fields:
  "ad_apiVersion claudeCode = Some ''1.0.77''"
  "ad_capabilities claudeCode = Some claudeCodeCapabilities"
  "ad_name claudeCode = ''claude-code''"
  by (simp_all add: claudeCode_def AIAgentAdapter_def)

lemma gemini_fields:
  "ad_apiVersion gemini = Some ''2.0.0''"
  "ad_capabilities gemini = Some geminiCapabilities"
  "ad_name gemini = ''gemini-cli''"
  by (simp_all add: gemini_def AIAgentAdapter_def)

lemma bothAdapters_eq:
  "bothAdapters =
     \<lparr>reg_adapters = [(''claude-code'', [(''1.0.77'', claudeCode)]),
                      (''gemini-cli'', [(''2.0.0'', gemini)])],
      reg_defaultVersions = [(''claude-code'', ''1.0.77''), (''gemini-cli'', ''2.0.0'')],
      reg_metrics = [(''claude-code'', VersionMap), (''gemini-cli'', VersionMap)]\<rparr>"
  by (simp add: bothAdapters_def runCalls_def registerAdapter_def emptyRegistry_def
      claudeCode_fields gemini_fields)

lemma claudeCode_needsGeneration: "calculateCapabilityScore claudeCode needsGeneration = Inr 0"
  by (simp add: needsGeneration_def score_defs claudeCode_def adapter_defs)

lemma gemini_needsGeneration: "calculateCapabilityScore gemini needsGeneration = Inr 10"
  by (simp add: needsGeneration_def score_defs gemini_def adapter_defs)

lemma gemini_needsCobol: "calculateCapabilityScore gemini needsCobol = Inr 0"
  by (simp add: needsCobol_def score_defs gemini_def adapter_defs)

lemma claudeCode_needsCobol: "calculateCapabilityScore claudeCode needsCobol = Inr 0"
  by (simp add: needsCobol_def score_defs claudeCode_def adapter_defs)

section \<open>Properties of the capability score\<close>

lemma checkFeature_le:
  "matchedCount t \<le> requiredCount t \<Longrightarrow>
   matchedCount (checkFeature a t f) \<le> requiredCount (checkFeature a t f)"
  by (simp add: checkFeature_def)

lemma checkFeature_lt:
  "matchedCount t < requiredCount t \<Longrightarrow>
   matchedCount (checkFeature a t f) < requiredCount (checkFeature a t f)"
  by (simp add: checkFeature_def)

lemma foldl_checkFeature_le:
  "matchedCount t \<le> requiredCount t \<Longrightarrow>
   matchedCount (foldl (checkFeature a) t fs) \<le> requiredCount (foldl (checkFeature a) t fs)"
  by (induction fs arbitrary: t) (simp_all add: checkFeature_le)

lemma foldl_checkFeature_lt:
  "matchedCount t < requiredCount t \<Longrightarrow>
   matchedCount (foldl (checkFeature a) t fs) < requiredCount (foldl (checkFeature a) t fs)"
  by (induction fs arbitrary: t) (simp_all add: checkFeature_lt)

lemma foldl_checkFeature_missing:
  "F \<in> set fs \<Longrightarrow> \<not> ad_supportsFeature a F \<Longrightarrow> matchedCount t \<le> requiredCount t \<Longrightarrow>
   matchedCount (foldl (checkFeature a) t fs) < requiredCount (foldl (checkFeature a) t fs)"
proof (induction fs arbitrary: t)
  case Nil
  then show ?case by simp
next
  case (Cons f fs)
  show ?case
  proof (cases "f = F")
    case True
    with Cons.prems have "matchedCount (checkFeature a t f) < requiredCount (checkFeature a t f)"
      by (simp add: checkFeature_def)
    then show ?thesis by (simp add: foldl_checkFeature_lt)
  next
    case False
    with Cons.prems have "F \<in> set fs" by simp
    moreover have "matchedCount (checkFeature a t f) \<le> requiredCount (checkFeature a t f)"
      using Cons.prems(3) by (rule checkFeature_le)
    ultimately show ?thesis using Cons.IH Cons.prems(2) by simp
  qed
qed

lemma checkFeatures_le:
  "matchedCount t \<le> requiredCount t \<Longrightarrow>
   matchedCount (checkFeatures a req t) \<le> requiredCount (checkFeatures a req t)"
  by (simp add: checkFeatures_def foldl_checkFeature_le split: option.splits)

lemma checkContextWindow_le:
  "matchedCount t \<le> requiredCount t \<Longrightarrow>
   matchedCount (checkContextWindow c r t) \<le> requiredCount (checkContextWindow c r t)"
  by (simp add: checkContextWindow_def Let_def)

lemma checkContextWindow_lt:
  "matchedCount t < requiredCount t \<Longrightarrow>
   matchedCount (checkContextWindow c r t) < requiredCount (checkContextWindow c r t)"
  by (simp add: checkContextWindow_def Let_def)

lemma checkLanguages_lt:
  "matchedCount t < requiredCount t \<Longrightarrow>
   matchedCount (checkLanguages c r t) < requiredCount (checkLanguages c r t)"
  by (simp add: checkLanguages_def Let_def split: option.splits)

lemma checkCapability_lt:
  "matchedCount t < requiredCount t \<Longrightarrow>
   matchedCount (checkCapability a r t ch) < requiredCount (checkCapability a r t ch)"
  by (simp add: checkCapability_def split: prod.splits)

lemma foldl_checkCapability_lt:
  "matchedCount t < requiredCount t \<Longrightarrow>
   matchedCount (foldl (checkCapability a r) t cs) < requiredCount (foldl (checkCapability a r) t cs)"
  by (induction cs arbitrary: t) (simp_all add: checkCapability_lt)

lemma scoreTally_missing_feature:
  assumes "req_features req = Some fs" and "F \<in> set fs" and "\<not> ad_supportsFeature a F"
  shows "matchedCount (scoreTally a caps req) < requiredCount (scoreTally a caps req)"
proof -
  have "matchedCount (checkFeatures a req \<lparr>score = 0, requiredCount = 0, matchedCount = 0\<rparr>)
        < requiredCount (checkFeatures a req \<lparr>score = 0, requiredCount = 0, matchedCount = 0\<rparr>)"
    using assms by (simp add: checkFeatures_def foldl_checkFeature_missing)
  then show ?thesis
    unfolding scoreTally_def
    by (intro foldl_checkCapability_lt checkLanguages_lt checkContextWindow_lt)
qed

lemma finalScore_behind: "matchedCount t < requiredCount t \<Longrightarrow> finalScore t = 0"
  by (simp add: finalScore_def)

lemma collectMatches_positive:
  "collectMatches ps req = Inr ms \<Longrightarrow> m \<in> set ms \<Longrightarrow>
   calculateCapabilityScore (m_adapter m) req = Inr (m_score m) \<and> 0 < m_score m"
proof (induction ps req arbitrary: ms rule: collectMatches.induct)
  case (1 req)
  then show ?case by simp
next
  case (2 name version a rest req)
  then show ?case
    by (auto split: sum.splits if_splits)
qed

lemma findMatchingAdapters_positive:
  assumes "findMatchingAdapters reg req = Inr ms" and "m \<in> set ms"
  shows "calculateCapabilityScore (m_adapter m) req = Inr (m_score m) \<and> 0 < m_score m"
proof -
  from assms(1) obtain ms' where c: "collectMatches (registeredPairs reg) req = Inr ms'"
    and s: "ms = sortByScore ms'"
    by (auto simp: findMatchingAdapters_def split: sum.splits)
  from s assms(2) have "m \<in> set ms'" by (simp add: sortByScore_def)
  with c show ?thesis by (rule collectMatches_positive)
qed

text \<open>
  C1. When the requirement profile lists a feature \<open>F\<close> and the adapter's
  \<^verbatim>\<open>supportsFeature(F)\<close> is false, the capability score computed for the adapter is exactly 0
  (the only other outcome is the throw of an adapter without a capabilities getter), and
  \<^verbatim>\<open>findMatchingAdapters\<close> returns only entries with a score above 0, none of them for that
  adapter.
\<close>

theorem missing_feature_scores_zero:
  assumes "req_features req = Some fs" and "F \<in> set fs" and "\<not> ad_supportsFeature a F"
  shows "calculateCapabilityScore a req =
           (case ad_capabilities a of
              None \<Rightarrow> Inl ''capabilities getter must be implemented''
            | Some caps \<Rightarrow> Inr 0)
         \<and> (\<forall>ms. findMatchingAdapters reg req = Inr ms \<longrightarrow>
               (\<forall>m \<in> set ms. m_adapter m \<noteq> a \<and> 0 < m_score m))"
proof -
  have score: "calculateCapabilityScore a req =
           (case ad_capabilities a of
              None \<Rightarrow> Inl ''capabilities getter must be implemented''
            | Some caps \<Rightarrow> Inr 0)"
    using scoreTally_missing_feature [OF assms]
    by (simp add: calculateCapabilityScore_def finalScore_behind split: option.splits)
  have "m_adapter m \<noteq> a \<and> 0 < m_score m"
    if "findMatchingAdapters reg req = Inr ms" and "m \<in> set ms" for ms m
  proof -
    from findMatchingAdapters_positive [OF that]
    have pos: "calculateCapabilityScore (m_adapter m) req = Inr (m_score m)" "0 < m_score m"
      by simp_all
    have "m_adapter m \<noteq> a"
    proof
      assume "m_adapter m = a"
      with pos(1) score have "m_score m = 0"
        by (simp split: option.splits)
      with pos(2) show False by simp
    qed
    with pos(2) show ?thesis by simp
  qed
  with score show ?thesis by blast
qed

theorem missing_feature_scores_zero_witness:
  "\<not> ad_supportsFeature claudeCode ''generation''
   \<and> calculateCapabilityScore claudeCode needsGeneration = Inr 0
   \<and> map m_name (projr (findMatchingAdapters bothAdapters needsGeneration)) = [''gemini-cli'']"
proof -
  have f: "req_features needsGeneration = Some [''generation'']"
    by (simp add: needsGeneration_def noRequirements_def)
  have m: "''generation'' \<in> set [''generation'']" by simp
  have u: "\<not> ad_supportsFeature claudeCode ''generation''"
    by (simp add: claudeCode_def adapter_defs)
  have l: "map m_name (projr (findMatchingAdapters bothAdapters needsGeneration)) = [''gemini-cli'']"
    by (simp add: findMatchingAdapters_def registeredPairs_def bothAdapters_eq
        claudeCode_needsGeneration gemini_needsGeneration sortByScore_def)
  from missing_feature_scores_zero [OF f m u, of bothAdapters] u l
  show ?thesis by (simp add: claudeCode_fields)
qed

lemma checkLanguages_partial:
  assumes "req_languages req = Some ls"
    and "0 < length (filter (\<lambda>lang. lang \<in> set (cap_supportedLanguages caps)) (dedupe ls))"
    and "length (filter (\<lambda>lang. lang \<in> set (cap_supportedLanguages caps)) (dedupe ls))
           < length (dedupe ls)"
    and "matchedCount t \<le> requiredCount t"
  shows "matchedCount (checkLanguages caps req t) < requiredCount (checkLanguages caps req t)"
    and "score (checkLanguages caps req t) =
           score t + (of_nat (length (filter (\<lambda>lang. lang \<in> set (cap_supportedLanguages caps))
                                       (dedupe ls)))
                      / of_nat (length (dedupe ls))) * 5"
  using assms by (simp_all add: checkLanguages_def Let_def)

text \<open>
  Whatever else the profile asks for, an adapter that supports some but not all of the
  required languages gets the fraction added to its running score and then the final
  score 0: the language category raised \<^verbatim>\<open>requiredCount\<close> without raising \<^verbatim>\<open>matchedCount\<close>.
\<close>

lemma partial_language_coverage_scores_zero:
  assumes "req_languages req = Some ls" and "ad_capabilities a = Some caps"
    and "0 < length (filter (\<lambda>lang. lang \<in> set (cap_supportedLanguages caps)) (dedupe ls))"
    and "length (filter (\<lambda>lang. lang \<in> set (cap_supportedLanguages caps)) (dedupe ls))
           < length (dedupe ls)"
  shows "calculateCapabilityScore a req = Inr 0"
proof -
  let ?t = "checkContextWindow caps req
              (checkFeatures a req \<lparr>score = 0, requiredCount = 0, matchedCount = 0\<rparr>)"
  have "matchedCount ?t \<le> requiredCount ?t"
    by (intro checkContextWindow_le checkFeatures_le) simp
  from checkLanguages_partial(1) [OF assms(1,3,4) this]
  have "matchedCount (scoreTally a caps req) < requiredCount (scoreTally a caps req)"
    unfolding scoreTally_def by (rule foldl_checkCapability_lt)
  then show ?thesis
    by (simp add: calculateCapabilityScore_def assms(2) finalScore_behind)
qed

text \<open>
  C2. The Gemini adapter supports the one required feature and one of the two required
  languages. The running score after the language category is 10 + (1/2) * 5, the fraction
  has been added; the score returned is 0 and \<^verbatim>\<open>findMatchingAdapters\<close> returns no entry, so
  partial language coverage disqualifies the adapter.
\<close>

theorem partial_language_coverage_disqualifies:
  "score (checkLanguages geminiCapabilities needsCobol
            (checkContextWindow geminiCapabilities needsCobol
               (checkFeatures gemini needsCobol
                  \<lparr>score = 0, requiredCount = 0, matchedCount = 0\<rparr>))) = 10 + (1 / 2) * 5
   \<and> calculateCapabilityScore gemini needsCobol = Inr 0
   \<and> findMatchingAdapters bothAdapters needsCobol = Inr []"
proof -
  have "score (checkLanguages geminiCapabilities needsCobol
            (checkContextWindow geminiCapabilities needsCobol
               (checkFeatures gemini needsCobol
                  \<lparr>score = 0, requiredCount = 0, matchedCount = 0\<rparr>))) = 10 + (1 / 2) * 5"
    by (simp add: needsCobol_def score_defs gemini_def adapter_defs)
  moreover have "findMatchingAdapters bothAdapters needsCobol = Inr []"
    by (simp add: findMatchingAdapters_def registeredPairs_def bothAdapters_eq
        gemini_needsCobol claudeCode_needsCobol sortByScore_def)
  ultimately show ?thesis by (simp add: gemini_needsCobol)
qed

section \<open>Properties of the registry\<close>

declare map_of_eq_Some_iff [simp del]

lemma keys_map_of: "k \<in> fst ` set al \<longleftrightarrow> map_of al k \<noteq> None"
  by (simp add: map_of_eq_None_iff)

lemma update_nonempty: "AList.update k v al \<noteq> []"
  by (cases al) simp_all

lemma hd_key: "al \<noteq> [] \<Longrightarrow> fst (hd al) \<in> fst ` set al"
  by (cases al) simp_all

lemma consistent_empty: "consistent emptyRegistry"
  by (simp add: consistent_def emptyRegistry_def)

lemma consistentD:
  assumes "consistent reg"
  shows "distinct (map fst (reg_adapters reg))" "distinct (map fst (reg_defaultVersions reg))"
    "map_of (reg_adapters reg) name = None \<Longrightarrow> map_of (reg_defaultVersions reg) name = None"
    "map_of (reg_adapters reg) name = Some vm \<Longrightarrow> vm \<noteq> [] \<and> distinct (map fst vm) \<and>
          (\<exists>v. map_of (reg_defaultVersions reg) name = Some v \<and> map_of vm v \<noteq> None)"
proof -
  from assms have a: "\<And>name. case map_of (reg_adapters reg) name of
        None \<Rightarrow> map_of (reg_defaultVersions reg) name = None
      | Some versionMap \<Rightarrow>
          versionMap \<noteq> [] \<and> distinct (map fst versionMap) \<and>
          (\<exists>v. map_of (reg_defaultVersions reg) name = Some v \<and> map_of versionMap v \<noteq> None)"
    by (simp add: consistent_def)
  show "distinct (map fst (reg_adapters reg))" "distinct (map fst (reg_defaultVersions reg))"
    using assms by (simp_all add: consistent_def)
  show "map_of (reg_adapters reg) name = None \<Longrightarrow> map_of (reg_defaultVersions reg) name = None"
    using a [of name] by simp
  show "map_of (reg_adapters reg) name = Some vm \<Longrightarrow> vm \<noteq> [] \<and> distinct (map fst vm) \<and>
          (\<exists>v. map_of (reg_defaultVersions reg) name = Some v \<and> map_of vm v \<noteq> None)"
    using a [of name] by simp
qed

lemma consistentI:
  assumes "distinct (map fst (reg_adapters reg))" "distinct (map fst (reg_defaultVersions reg))"
    "\<And>name. map_of (reg_adapters reg) name = None \<Longrightarrow> map_of (reg_defaultVersions reg) name = None"
    "\<And>name vm. map_of (reg_adapters reg) name = Some vm \<Longrightarrow> vm \<noteq> [] \<and> distinct (map fst vm) \<and>
          (\<exists>v. map_of (reg_defaultVersions reg) name = Some v \<and> map_of vm v \<noteq> None)"
  shows "consistent reg"
  unfolding consistent_def using assms
  by (simp split: option.splits)

lemma consistent_register:
  assumes c: "consistent reg" and r: "registerAdapter name adapter version setAsDefault reg = Inr reg'"
  shows "consistent reg'"
proof -
  from r obtain a av where a: "adapter = Some a" and n: "name \<noteq> []"
    and av: "(if version = None \<or> version = Some [] then ad_apiVersion a else version) = Some av"
    by (auto simp: registerAdapter_def split: option.splits if_splits)
  define vm0 where "vm0 = (case map_of (reg_adapters reg) name of None \<Rightarrow> [] | Some vm \<Rightarrow> vm)"
  define vm where "vm = AList.update av a vm0"
  have reg': "reg' = reg
                    \<lparr>reg_adapters := AList.update name vm (reg_adapters reg),
                     reg_defaultVersions :=
                       (if setAsDefault \<or> map_of (reg_defaultVersions reg) name = None
                        then AList.update name av (reg_defaultVersions reg)
                        else reg_defaultVersions reg),
                     reg_metrics :=
                       (if map_of (reg_metrics reg) name = None
                        then AList.update name VersionMap (reg_metrics reg)
                        else reg_metrics reg)\<rparr>"
    using r a n av unfolding registerAdapter_def vm_def vm0_def
    by (simp add: Let_def split: option.splits if_splits)
  have d0: "distinct (map fst vm0)"
    using consistentD(4) [OF c] by (auto simp: vm0_def split: option.splits)
  have old: "map_of (reg_defaultVersions reg) name = Some v \<Longrightarrow> map_of vm0 v \<noteq> None" for v
    using consistentD(3,4) [OF c, of name] by (auto simp: vm0_def split: option.splits)
  show ?thesis
  proof (rule consistentI)
    show "distinct (map fst (reg_adapters reg'))"
      using consistentD(1) [OF c] by (simp add: reg' distinct_update)
    show "distinct (map fst (reg_defaultVersions reg'))"
      using consistentD(2) [OF c] by (simp add: reg' distinct_update)
  next
    fix name'
    assume "map_of (reg_adapters reg') name' = None"
    then have "name' \<noteq> name" "map_of (reg_adapters reg) name' = None"
      by (auto simp: reg' update_conv' split: if_splits)
    then show "map_of (reg_defaultVersions reg') name' = None"
      using consistentD(3) [OF c] by (simp add: reg' update_conv')
  next
    fix name' vm'
    assume s: "map_of (reg_adapters reg') name' = Some vm'"
    show "vm' \<noteq> [] \<and> distinct (map fst vm') \<and>
          (\<exists>v. map_of (reg_defaultVersions reg') name' = Some v \<and> map_of vm' v \<noteq> None)"
    proof (cases "name' = name")
      case True
      with s have "vm' = vm" by (simp add: reg' update_conv')
      moreover have "vm \<noteq> []" by (simp add: vm_def update_nonempty)
      moreover have "distinct (map fst vm)" using d0 by (simp add: vm_def distinct_update)
      moreover have "\<exists>v. map_of (reg_defaultVersions reg') name = Some v \<and> map_of vm v \<noteq> None"
        using old by (auto simp: reg' vm_def update_conv')
      ultimately show ?thesis using True by simp
    next
      case False
      with s have "map_of (reg_adapters reg) name' = Some vm'" by (simp add: reg' update_conv')
      from consistentD(4) [OF c this] False show ?thesis by (simp add: reg' update_conv')
    qed
  qed
qed

lemma consistent_setDefault:
  assumes c: "consistent reg" and r: "setDefaultVersion name version reg = Inr reg'"
  shows "consistent reg'"
proof -
  from r obtain vm where vm: "map_of (reg_adapters reg) name = Some vm" "map_of vm version \<noteq> None"
    and reg': "reg' = reg\<lparr>reg_defaultVersions := AList.update name version (reg_defaultVersions reg)\<rparr>"
    by (auto simp: setDefaultVersion_def split: option.splits if_splits)
  show ?thesis
  proof (rule consistentI)
    show "distinct (map fst (reg_adapters reg'))"
      using consistentD(1) [OF c] by (simp add: reg')
    show "distinct (map fst (reg_defaultVersions reg'))"
      using consistentD(2) [OF c] by (simp add: reg' distinct_update)
  next
    fix name'
    assume "map_of (reg_adapters reg') name' = None"
    then show "map_of (reg_defaultVersions reg') name' = None"
      using consistentD(3) [OF c, of name'] vm by (auto simp: reg' update_conv')
  next
    fix name' vm'
    assume "map_of (reg_adapters reg') name' = Some vm'"
    then have "map_of (reg_adapters reg) name' = Some vm'" by (simp add: reg')
    from consistentD(4) [OF c this] vm this
    show "vm' \<noteq> [] \<and> distinct (map fst vm') \<and>
          (\<exists>v. map_of (reg_defaultVersions reg') name' = Some v \<and> map_of vm' v \<noteq> None)"
      by (auto simp: reg' update_conv')
  qed
qed

lemma consistent_removeAll:
  assumes c: "consistent reg"
  shows "consistent (reg\<lparr>reg_adapters := AList.delete name (reg_adapters reg),
                    reg_defaultVersions := AList.delete name (reg_defaultVersions reg)\<rparr>)"
proof (rule consistentI)
  fix name' vm'
  assume "map_of (reg_adapters (reg\<lparr>reg_adapters := AList.delete name (reg_adapters reg),
                    reg_defaultVersions := AList.delete name (reg_defaultVersions reg)\<rparr>)) name' = Some vm'"
  then have "name' \<noteq> name" "map_of (reg_adapters reg) name' = Some vm'"
    by (auto simp: delete_conv' split: if_splits)
  with consistentD(4) [OF c this(2)]
  show "vm' \<noteq> [] \<and> distinct (map fst vm') \<and>
          (\<exists>v. map_of (reg_defaultVersions (reg\<lparr>reg_adapters := AList.delete name (reg_adapters reg),
                    reg_defaultVersions := AList.delete name (reg_defaultVersions reg)\<rparr>)) name' = Some v \<and> map_of vm' v \<noteq> None)"
    by (simp add: delete_conv')
qed (use consistentD(1,2,3) [OF c] in \<open>auto simp: distinct_delete delete_conv'\<close>)

lemma consistent_unregister:
  assumes c: "consistent reg"
  shows "consistent (unregisterAdapter name version reg)"
proof (cases "map_of (reg_adapters reg) name")
  case None
  then show ?thesis using c by (simp add: unregisterAdapter_def)
next
  case (Some vm0)
  note inv = consistentD(4) [OF c Some]
  show ?thesis
  proof (cases "\<exists>c cs. version = Some (c # cs)")
    case False
    then have "unregisterAdapter name version reg =
        reg\<lparr>reg_adapters := AList.delete name (reg_adapters reg),
            reg_defaultVersions := AList.delete name (reg_defaultVersions reg)\<rparr>"
      using Some by (auto simp: unregisterAdapter_def split: option.splits list.splits)
    then show ?thesis using consistent_removeAll [OF c] by simp
  next
    case True
    then obtain ver where ver: "version = Some ver" "ver \<noteq> []" by auto
    define vm where "vm = AList.delete ver vm0"
    have dvm: "distinct (map fst vm)" using inv by (simp add: vm_def distinct_delete)
    show ?thesis
    proof (cases "vm = []")
      case True
      then have "unregisterAdapter name version reg =
        reg\<lparr>reg_adapters := AList.delete name (reg_adapters reg),
            reg_defaultVersions := AList.delete name (reg_defaultVersions reg)\<rparr>"
        using Some ver by (auto simp: unregisterAdapter_def vm_def Let_def split: list.splits)
      then show ?thesis using consistent_removeAll [OF c] by simp
    next
      case False
      define dv where "dv = (if map_of (reg_defaultVersions reg) name = Some ver
                 then AList.update name (fst (hd vm)) (reg_defaultVersions reg)
                 else reg_defaultVersions reg)"
      have eq: "unregisterAdapter name version reg =
          reg\<lparr>reg_adapters := AList.update name vm (reg_adapters reg), reg_defaultVersions := dv\<rparr>"
        using Some ver False
        by (auto simp: unregisterAdapter_def vm_def dv_def Let_def split: list.splits)
      have def_ok: "\<exists>v. map_of dv name = Some v \<and> map_of vm v \<noteq> None"
      proof (cases "map_of (reg_defaultVersions reg) name = Some ver")
        case True
        then show ?thesis using hd_key [OF False] by (simp add: dv_def update_conv' keys_map_of del: not_None_eq)
      next
        case False
        with inv show ?thesis by (auto simp: dv_def vm_def delete_conv')
      qed
      have other: "name' \<noteq> name \<Longrightarrow> map_of dv name' = map_of (reg_defaultVersions reg) name'" for name'
        by (simp add: dv_def update_conv')
      show ?thesis unfolding eq
      proof (rule consistentI)
        show "distinct (map fst (reg_adapters (reg\<lparr>reg_adapters := AList.update name vm (reg_adapters reg), reg_defaultVersions := dv\<rparr>)))"
          using consistentD(1) [OF c] by (simp add: distinct_update)
        show "distinct (map fst (reg_defaultVersions (reg\<lparr>reg_adapters := AList.update name vm (reg_adapters reg), reg_defaultVersions := dv\<rparr>)))"
          using consistentD(2) [OF c] by (simp add: dv_def distinct_update)
      next
        fix name'
        assume "map_of (reg_adapters (reg\<lparr>reg_adapters := AList.update name vm (reg_adapters reg), reg_defaultVersions := dv\<rparr>)) name' = None"
        then have "name' \<noteq> name" "map_of (reg_adapters reg) name' = None"
          by (auto simp: update_conv' split: if_splits)
        then show "map_of (reg_defaultVersions (reg\<lparr>reg_adapters := AList.update name vm (reg_adapters reg), reg_defaultVersions := dv\<rparr>)) name' = None"
          using consistentD(3) [OF c] other by simp
      next
        fix name' vm'
        assume s: "map_of (reg_adapters (reg\<lparr>reg_adapters := AList.update name vm (reg_adapters reg), reg_defaultVersions := dv\<rparr>)) name' = Some vm'"
        show "vm' \<noteq> [] \<and> distinct (map fst vm') \<and>
          (\<exists>v. map_of (reg_defaultVersions (reg\<lparr>reg_adapters := AList.update name vm (reg_adapters reg), reg_defaultVersions := dv\<rparr>)) name' = Some v \<and> map_of vm' v \<noteq> None)"
        proof (cases "name' = name")
          case True
          with s have "vm' = vm" by (simp add: update_conv')
          with False dvm def_ok True show ?thesis by simp
        next
          case False
          with s have "map_of (reg_adapters reg) name' = Some vm'" by (simp add: update_conv')
          from consistentD(4) [OF c this] False other show ?thesis by simp
        qed
      qed
    qed
  qed
qed

lemma recordMetrics_keeps:
  "reg_adapters (recordMetrics name version duration failed now reg) = reg_adapters reg"
  "reg_defaultVersions (recordMetrics name version duration failed now reg) = reg_defaultVersions reg"
  by (simp_all add: recordMetrics_def Let_def split: option.splits metricsEntry.splits)

lemma consistent_record: "consistent reg \<Longrightarrow> consistent (recordMetrics name version duration failed now reg)"
  by (simp add: consistent_def recordMetrics_keeps cong: option.case_cong)

lemma consistent_applyCall: "consistent reg \<Longrightarrow> consistent (applyCall reg call)"
  by (cases call)
     (auto simp: consistent_unregister consistent_record
           intro: consistent_register consistent_setDefault split: sum.splits)

lemma consistent_foldl: "consistent reg \<Longrightarrow> consistent (foldl applyCall reg calls)"
  by (induction calls arbitrary: reg) (simp_all add: consistent_applyCall)

lemma consistent_runCalls: "consistent (runCalls calls)"
  unfolding runCalls_def by (rule consistent_foldl [OF consistent_empty])

lemma one_entry_per_key:
  "distinct (map fst al) \<Longrightarrow> map_of al v \<noteq> None \<Longrightarrow>
   length (filter (\<lambda>(k, x). k = v) al) = 1"
proof (induction al)
  case Nil
  then show ?case by simp
next
  case (Cons p al)
  obtain k x where p: "p = (k, x)" by (cases p)
  show ?case
  proof (cases "k = v")
    case True
    with Cons.prems p have "v \<notin> fst ` set al" by auto
    then have "filter (\<lambda>(k, x). k = v) al = []"
      by (force simp: filter_empty_conv)
    with True p show ?thesis by simp
  next
    case False
    with Cons p show ?thesis by simp
  qed
qed


text \<open>
  C6. After any sequence of \<^verbatim>\<open>registerAdapter\<close>, \<^verbatim>\<open>setDefaultVersion\<close> and
  \<^verbatim>\<open>unregisterAdapter\<close> calls (and of \<^verbatim>\<open>recordMetrics\<close> calls, which do not touch the
  versions), a name that is still registered has at least one version, has a default version
  that is one of its registered versions, and exactly one of its versions is flagged as the
  default. Registering a version for a name that is not registered makes that version the
  default although \<^verbatim>\<open>setAsDefault\<close> is false.
\<close>

theorem registry_default_invariant:
  "(\<forall>versionMap. map_of (reg_adapters (runCalls calls)) name = Some versionMap \<longrightarrow>
      versionMap \<noteq> []
      \<and> (\<exists>v. map_of (reg_defaultVersions (runCalls calls)) name = Some v \<and> v \<in> fst ` set versionMap)
      \<and> length (filter (\<lambda>(version, a). isDefault (runCalls calls) name version) versionMap) = 1)
   \<and> (\<forall>a version reg'. map_of (reg_adapters (runCalls calls)) name = None \<longrightarrow>
        registerAdapter name (Some a) version False (runCalls calls) = Inr reg' \<longrightarrow>
        (\<exists>v. map_of (reg_adapters reg') name = Some [(v, a)] \<and> isDefault reg' name v))"
proof (intro conjI allI impI)
  fix versionMap
  assume s: "map_of (reg_adapters (runCalls calls)) name = Some versionMap"
  from consistentD(4) [OF consistent_runCalls s]
  obtain v where inv: "versionMap \<noteq> []" "distinct (map fst versionMap)"
    "map_of (reg_defaultVersions (runCalls calls)) name = Some v" "map_of versionMap v \<noteq> None"
    by blast
  show "versionMap \<noteq> []" by (rule inv(1))
  show "\<exists>v. map_of (reg_defaultVersions (runCalls calls)) name = Some v \<and> v \<in> fst ` set versionMap"
    using inv(3,4) by (simp add: keys_map_of del: not_None_eq)
  have "filter (\<lambda>(version, a). isDefault (runCalls calls) name version) versionMap
        = filter (\<lambda>(k, x). k = v) versionMap"
    using inv(3) by (auto simp: isDefault_def intro!: filter_cong)
  then show "length (filter (\<lambda>(version, a). isDefault (runCalls calls) name version) versionMap) = 1"
    using one_entry_per_key [OF inv(2,4)] by simp
next
  fix a version reg'
  assume n: "map_of (reg_adapters (runCalls calls)) name = None"
    and r: "registerAdapter name (Some a) version False (runCalls calls) = Inr reg'"
  from consistentD(3) [OF consistent_runCalls n]
  have d: "map_of (reg_defaultVersions (runCalls calls)) name = None" .
  from r n d show "\<exists>v. map_of (reg_adapters reg') name = Some [(v, a)] \<and> isDefault reg' name v"
    by (auto simp: registerAdapter_def isDefault_def update_conv' Let_def
             split: option.splits if_splits)
qed


lemma versionCalls_eq:
  "runCalls versionCalls =
     \<lparr>reg_adapters = [(''gemini-cli'', [(''2.0.0'', gemini)])],
      reg_defaultVersions = [(''gemini-cli'', ''2.0.0'')],
      reg_metrics = [(''gemini-cli'', VersionMap)]\<rparr>"
  by (simp add: versionCalls_def runCalls_def registerAdapter_def unregisterAdapter_def
      emptyRegistry_def AList.delete_eq)

theorem registry_default_invariant_witness:
  "map_of (reg_adapters (runCalls versionCalls)) ''gemini-cli'' = Some [(''2.0.0'', gemini)]
   \<and> map_of (reg_defaultVersions (runCalls versionCalls)) ''gemini-cli'' = Some ''2.0.0''
   \<and> length (filter (\<lambda>(version, a). isDefault (runCalls versionCalls) ''gemini-cli'' version)
                [(''2.0.0'', gemini)]) = 1
   \<and> map_of (reg_adapters (runCalls versionCalls)) ''claude-code'' = None
   \<and> isDefault (projr (registerAdapter ''claude-code'' (Some claudeCode) None False
                          (runCalls versionCalls))) ''claude-code'' ''1.0.77''"
proof -
  have g: "map_of (reg_adapters (runCalls versionCalls)) ''gemini-cli'' = Some [(''2.0.0'', gemini)]"
    by (simp add: versionCalls_eq)
  have d: "map_of (reg_defaultVersions (runCalls versionCalls)) ''gemini-cli'' = Some ''2.0.0''"
    by (simp add: versionCalls_eq)
  have n: "map_of (reg_adapters (runCalls versionCalls)) ''claude-code'' = None"
    by (simp add: versionCalls_eq)
  obtain reg' where r: "registerAdapter ''claude-code'' (Some claudeCode) None False
      (runCalls versionCalls) = Inr reg'"
    by (simp add: registerAdapter_def claudeCode_fields)
  from registry_default_invariant [of versionCalls "''gemini-cli''"] g
  have one: "length (filter (\<lambda>(version, a). isDefault (runCalls versionCalls) ''gemini-cli'' version)
                [(''2.0.0'', gemini)]) = 1"
    by blast
  from registry_default_invariant [of versionCalls "''claude-code''"] n r
  obtain v where v: "map_of (reg_adapters reg') ''claude-code'' = Some [(v, claudeCode)]"
    "isDefault reg' ''claude-code'' v"
    by blast
  from r have "map_of (reg_adapters reg') ''claude-code'' = Some [(''1.0.77'', claudeCode)]"
    by (auto simp: registerAdapter_def claudeCode_fields versionCalls_eq)
  with v have "isDefault reg' ''claude-code'' ''1.0.77''" by simp
  with g d n one r show ?thesis by simp
qed

lemma applyCall_metrics_other:
  "metricsKeyWritten call \<noteq> Some key \<Longrightarrow>
   map_of (reg_metrics (applyCall reg call)) key = map_of (reg_metrics reg) key"
proof (cases call)
  case (Register name adapter version setAsDefault)
  assume "metricsKeyWritten call \<noteq> Some key"
  with Register have "name \<noteq> key" by simp
  then show ?thesis using Register
    by (auto simp: registerAdapter_def update_conv' Let_def split: option.splits if_splits)
next
  case (SetDefault name version)
  then show ?thesis
    by (auto simp: setDefaultVersion_def split: option.splits if_splits)
next
  case (Unregister name version)
  then show ?thesis
    by (auto simp: unregisterAdapter_def Let_def split: option.splits list.splits if_splits)
next
  case (Record name version duration failed now)
  assume "metricsKeyWritten call \<noteq> Some key"
  with Record have "metricsKey name version \<noteq> key" by simp
  then show ?thesis using Record
    by (auto simp: recordMetrics_def update_conv' Let_def split: option.splits metricsEntry.splits)
qed

lemma foldl_applyCall_metrics_other:
  "\<forall>c \<in> set calls. metricsKeyWritten c \<noteq> Some key \<Longrightarrow>
   map_of (reg_metrics (foldl applyCall reg calls)) key = map_of (reg_metrics reg) key"
  by (induction calls arbitrary: reg) (simp_all add: applyCall_metrics_other)

text \<open>
  \<^verbatim>\<open>getAdapterMetrics\<close> looks the pair up under the single string \<^verbatim>\<open>name:version\<close>. When no
  call of the history wrote that key (no \<^verbatim>\<open>recordMetrics\<close> for a pair that composes to it, no
  \<^verbatim>\<open>registerAdapter\<close> under a name equal to it), the result is the default record, whose
  \<^verbatim>\<open>avgDuration\<close> is 0, and the performance step of \<^verbatim>\<open>selectOptimalAdapter\<close> leaves a match
  for that pair as it is.
\<close>

lemma unwritten_key_default_metrics:
  assumes "\<forall>c \<in> set calls. metricsKeyWritten c \<noteq> Some (metricsKey name version)"
  shows "getAdapterMetrics (runCalls calls) name version = Stats defaultMetrics
         \<and> pr_avgDuration defaultMetrics = 0
         \<and> (\<forall>m. m_name m = name \<and> m_version m = version \<longrightarrow>
                boostPerformance (runCalls calls) m = m)"
proof -
  have "map_of (reg_metrics (runCalls calls)) (metricsKey name version) = None"
    using foldl_applyCall_metrics_other [OF assms, of emptyRegistry]
    by (simp add: runCalls_def emptyRegistry_def)
  then have "getAdapterMetrics (runCalls calls) name version = Stats defaultMetrics"
    by (simp add: getAdapterMetrics_def)
  then show ?thesis
    by (simp add: boostPerformance_def defaultMetrics_def)
qed

lemma unwritten_key_default_metrics_example:
  "getAdapterMetrics (runCalls versionCalls) ''gemini-cli'' ''2.0.0'' = Stats defaultMetrics
   \<and> boostPerformance (runCalls versionCalls)
        \<lparr>m_name = ''gemini-cli'', m_version = ''2.0.0'', m_adapter = gemini, m_score = 10,
         m_capabilities = Some geminiCapabilities\<rparr>
       = \<lparr>m_name = ''gemini-cli'', m_version = ''2.0.0'', m_adapter = gemini, m_score = 10,
          m_capabilities = Some geminiCapabilities\<rparr>"
proof -
  have "\<forall>c \<in> set versionCalls. metricsKeyWritten c \<noteq> Some (metricsKey ''gemini-cli'' ''2.0.0'')"
    by (simp add: versionCalls_def metricsKey_def)
  from unwritten_key_default_metrics [OF this] show ?thesis by simp
qed

text \<open>
  The empty \<^verbatim>\<open>Map\<close> that \<^verbatim>\<open>registerAdapter\<close> stores under the bare adapter name lives in the
  same map: it is what a pair gets whose key equals a registered name.
\<close>

lemma registered_name_shadows_metrics:
  "getAdapterMetrics (runCalls collidingCalls) ''gemini-cli'' ''2.0.0'' = VersionMap"
  by (simp add: collidingCalls_def runCalls_def registerAdapter_def emptyRegistry_def
      gemini_fields getAdapterMetrics_def metricsKey_def)

text \<open>
  C10. The pair \<^verbatim>\<open>('openai', 'gpt:4.0')\<close> has no recorded execution: the one execution of the
  history was recorded for the pair \<^verbatim>\<open>('openai:gpt', '4.0')\<close>. Metrics are documented as kept
  per adapter name and version, but \<^verbatim>\<open>recordMetrics\<close> and \<^verbatim>\<open>getAdapterMetrics\<close> compose the
  two into the one string \<^verbatim>\<open>name:version\<close> without escaping, and both pairs compose to
  \<^verbatim>\<open>openai:gpt:4.0\<close>. So \<^verbatim>\<open>getAdapterMetrics\<close> returns the other pair's record instead of the
  default one, its \<^verbatim>\<open>avgDuration\<close> is 1200 and not 0, and the performance step of
  \<^verbatim>\<open>selectOptimalAdapter\<close> raises the score of a match for the unrecorded pair from 12 to 13.
\<close>

theorem unrecorded_pair_reads_colliding_record:
  "getAdapterMetrics (runCalls collidingRecord) ''openai'' ''gpt:4.0''
     = Stats \<lparr>pr_totalExecutions = 1, pr_totalDuration = 1200, pr_failures = 0,
              pr_avgDuration = 1200, pr_successRate = 1, pr_lastUpdated = Some 7\<rparr>
   \<and> getAdapterMetrics (runCalls collidingRecord) ''openai'' ''gpt:4.0'' \<noteq> Stats defaultMetrics
   \<and> m_score (boostPerformance (runCalls collidingRecord)
        \<lparr>m_name = ''openai'', m_version = ''gpt:4.0'', m_adapter = gemini, m_score = 12,
         m_capabilities = Some geminiCapabilities\<rparr>) = 13"
  by (simp add: collidingRecord_def runCalls_def recordMetrics_def emptyRegistry_def
      getAdapterMetrics_def metricsKey_def boostPerformance_def defaultMetrics_def Let_def)

section \<open>Properties of the orchestration engine\<close>

lemma tryStrategies_unavailable:
  "\<not> isStrategyAvailable a s \<Longrightarrow>
   tryStrategies a t opts (s # rest) attempts elapsed st =
     tryStrategies a t opts rest (attempts @ [skippedAttempt s ''Not available'']) elapsed st"
  by simp

lemma tryStrategies_unsuitable:
  "isStrategyAvailable a s \<Longrightarrow> \<not> isStrategySuitable s t \<Longrightarrow>
   tryStrategies a t opts (s # rest) attempts elapsed st =
     tryStrategies a t opts rest (attempts @ [skippedAttempt s ''Not suitable for task'']) elapsed st"
  by simp

lemma tryStrategies_success:
  "isStrategyAvailable a s \<Longrightarrow> isStrategySuitable s t \<Longrightarrow>
   executeStrategy a s t opts st = (p, st') \<Longrightarrow>
   executeWithTimeout p (timeoutFor opts s) = (d, Resolved r) \<Longrightarrow>
   tryStrategies a t opts (s # rest) attempts elapsed st =
     (Returned \<lparr>exec_result = r, exec_strategy = Some s,
                exec_attempts = Some (attempts @ [successAttempt s d]),
                exec_totalDuration = Some (elapsed + d)\<rparr>, st')"
  by simp

lemma tryStrategies_failure:
  "isStrategyAvailable a s \<Longrightarrow> isStrategySuitable s t \<Longrightarrow>
   executeStrategy a s t opts st = (p, st') \<Longrightarrow>
   executeWithTimeout p (timeoutFor opts s) = (d, Rejected m) \<Longrightarrow>
   tryStrategies a t opts (s # rest) attempts elapsed st =
     tryStrategies a t opts rest (attempts @ [failedAttempt s m d]) (elapsed + d) st'"
  by simp

declare tryStrategies.simps(2) [simp del]

lemma available_simps:
  "isStrategyAvailable a ''subAgents'' = ad_supportsFeature a ''subAgents''"
  "isStrategyAvailable a ''parallel'' = ad_supportsFeature a ''parallelExecution''"
  "isStrategyAvailable a ''streaming'' = ad_supportsFeature a ''streaming''"
  "isStrategyAvailable a ''batched''"
  "isStrategyAvailable a ''sequential''"
  by (simp_all add: isStrategyAvailable_def)

lemma suitable_simps:
  "isStrategySuitable ''batched'' t = (fileCount t > 10)"
  "isStrategySuitable ''sequential'' t"
  "isStrategySuitable ''parallel'' t =
     (fileCount t > 2 \<or> task_type t = ''validation'' \<or> task_type t = ''testing'')"
  by (simp_all add: isStrategySuitable_def)

lemma executeStrategy_sequential:
  "executeStrategy a ''sequential'' t opts st = ad_executeTask a st t"
  by (simp add: executeStrategy_def executeSequentially_def)

lemma executeWithTimeout_in_time:
  "d < timeout \<Longrightarrow> executeWithTimeout (Some (d, s)) timeout = (d, s)"
  by (simp add: executeWithTimeout_def)

text \<open>
  C3, as amended. For a task without an explicit strategy and with at most 10 context
  files, run with the default strategy list through an adapter that supports none of
  \<^verbatim>\<open>subAgents\<close>, \<^verbatim>\<open>parallelExecution\<close> and \<^verbatim>\<open>streaming\<close> and whose \<^verbatim>\<open>executeTask\<close> resolves
  before the sequential timeout, \<^verbatim>\<open>execute\<close> resolves via \<^verbatim>\<open>sequential\<close>, and the trail is four
  skipped attempts followed by one success.
\<close>

theorem sequential_after_four_skips:
  assumes "getExplicitStrategy a t = None"
    and "opt_strategies opts = None"
    and "\<not> ad_supportsFeature a ''subAgents''"
    and "\<not> ad_supportsFeature a ''parallelExecution''"
    and "\<not> ad_supportsFeature a ''streaming''"
    and "fileCount t \<le> 10"
    and "ad_executeTask a st t = (Some (d, Resolved r), st')"
    and "d < timeoutFor opts ''sequential''"
  shows "execute a t opts st =
           (Some (Returned
              \<lparr>exec_result = r,
               exec_strategy = Some ''sequential'',
               exec_attempts = Some
                 [skippedAttempt ''subAgents'' ''Not available'',
                  skippedAttempt ''parallel'' ''Not available'',
                  skippedAttempt ''streaming'' ''Not available'',
                  skippedAttempt ''batched'' ''Not suitable for task'',
                  successAttempt ''sequential'' d],
               exec_totalDuration = Some d\<rparr>), st')"
proof -
  have seq: "tryStrategies a t opts [''sequential'']
               [skippedAttempt ''subAgents'' ''Not available'',
                skippedAttempt ''parallel'' ''Not available'',
                skippedAttempt ''streaming'' ''Not available'',
                skippedAttempt ''batched'' ''Not suitable for task''] 0 st
             = (Returned
              \<lparr>exec_result = r,
               exec_strategy = Some ''sequential'',
               exec_attempts = Some
                 [skippedAttempt ''subAgents'' ''Not available'',
                  skippedAttempt ''parallel'' ''Not available'',
                  skippedAttempt ''streaming'' ''Not available'',
                  skippedAttempt ''batched'' ''Not suitable for task'',
                  successAttempt ''sequential'' d],
               exec_totalDuration = Some d\<rparr>, st')"
    using tryStrategies_success [OF available_simps(5) suitable_simps(2)
        executeStrategy_sequential [of a t opts st, unfolded assms(7)]
        executeWithTimeout_in_time [OF assms(8)], of "[]"
        "[skippedAttempt ''subAgents'' ''Not available'',
                skippedAttempt ''parallel'' ''Not available'',
                skippedAttempt ''streaming'' ''Not available'',
                skippedAttempt ''batched'' ''Not suitable for task'']" 0]
    by simp
  have "tryStrategies a t opts defaultStrategies [] 0 st
        = tryStrategies a t opts [''sequential'']
               [skippedAttempt ''subAgents'' ''Not available'',
                skippedAttempt ''parallel'' ''Not available'',
                skippedAttempt ''streaming'' ''Not available'',
                skippedAttempt ''batched'' ''Not suitable for task''] 0 st"
    using assms(3-6)
    by (simp add: defaultStrategies_def tryStrategies_unavailable tryStrategies_unsuitable
        available_simps suitable_simps)
  with seq show ?thesis
    using assms(1,2) by (simp add: execute_def)
qed


lemma mockAdapter_fields:
  "ad_name (mockAdapter supported stub) = ''test-adapter''"
  "ad_supportsFeature (mockAdapter supported stub) feature = (feature \<in> set supported)"
  "ad_getFeatureConfig (mockAdapter supported stub) feature = None"
  "ad_executeTask (mockAdapter supported stub) calls t = (stub calls t, Suc calls)"
  "ad_executeWithStreaming (mockAdapter supported stub)
     = Some (\<lambda>calls t. (Some (0, Resolved completed), calls))"
  "ad_executeWithSubAgents (mockAdapter supported stub)
     = Some (\<lambda>calls p. (Some (0, Resolved emptyResult), calls))"
  by (simp_all add: mockAdapter_def)

lemmas task_defs = plainTask_def withFiles_def threeFileTask_def largeTask_def
  explicitStreamingTask_def explicitParallelTask_def explicitParallelFiles_def turboTask_def
  filesOf_def fileCount_def

lemmas engine_defs = execute_def getExplicitStrategy_def defaultStrategies_def noOptions_def
  executeStrategy_def executeSequentially_def executeInBatches_def executeInParallel_def
  executeWithStreaming_def executeWithSubAgents_def executeWithTimeout_def timeoutFor_def
  timeouts_def isStrategyAvailable_def isStrategySuitable_def decomposeForParallel_def
  maxConcurrentOr_def aggregateParallelResults_def aggregateBatchResults_def hasError_def
  resolvedVia_def trailOf_def entryOf_def skippedAttempt_def successAttempt_def
  failedAttempt_def tryStrategies.simps(2)

theorem sequential_after_four_skips_witness:
  "resolvedVia (fst (execute (mockAdapter [] alwaysCompletes) threeFileTask noOptions 0))
     = Some ''sequential''
   \<and> map_option (map entryOf)
        (trailOf (fst (execute (mockAdapter [] alwaysCompletes) threeFileTask noOptions 0)))
     = Some [(''subAgents'', ''skipped''), (''parallel'', ''skipped''),
             (''streaming'', ''skipped''), (''batched'', ''skipped''),
             (''sequential'', ''success'')]"
proof -
  have e: "getExplicitStrategy (mockAdapter [] alwaysCompletes) threeFileTask = None"
    by (simp add: getExplicitStrategy_def task_defs)
  have o: "opt_strategies noOptions = None" by (simp add: noOptions_def)
  have f: "\<not> ad_supportsFeature (mockAdapter [] alwaysCompletes) ''subAgents''"
    "\<not> ad_supportsFeature (mockAdapter [] alwaysCompletes) ''parallelExecution''"
    "\<not> ad_supportsFeature (mockAdapter [] alwaysCompletes) ''streaming''"
    by (simp_all add: mockAdapter_fields)
  have c: "fileCount threeFileTask \<le> 10" by (simp add: task_defs)
  have x: "ad_executeTask (mockAdapter [] alwaysCompletes) 0 threeFileTask
           = (Some (0, Resolved (completed\<lparr>res_output := Some ''Result''\<rparr>)), Suc 0)"
    by (simp add: mockAdapter_fields alwaysCompletes_def)
  have d: "0 < timeoutFor noOptions ''sequential''"
    by (simp add: timeoutFor_def timeouts_def noOptions_def)
  from sequential_after_four_skips [OF e o f c x d]
  show ?thesis
    by (simp add: resolvedVia_def trailOf_def entryOf_def skippedAttempt_def successAttempt_def)
qed

text \<open>
  With more than 10 context files the batched strategy is suitable, and it is always
  available: the task of the package's own batching test resolves via \<^verbatim>\<open>batched\<close> after three
  skips, with five \<^verbatim>\<open>executeTask\<close> calls.
\<close>

theorem many_files_resolve_via_batched:
  "getExplicitStrategy (mockAdapter [] alwaysCompletes) largeTask = None
   \<and> \<not> ad_supportsFeature (mockAdapter [] alwaysCompletes) ''subAgents''
   \<and> \<not> ad_supportsFeature (mockAdapter [] alwaysCompletes) ''parallelExecution''
   \<and> \<not> ad_supportsFeature (mockAdapter [] alwaysCompletes) ''streaming''
   \<and> fileCount largeTask = 25
   \<and> resolvedVia (fst (execute (mockAdapter [] alwaysCompletes) largeTask noOptions 0))
     = Some ''batched''
   \<and> map_option (map entryOf)
        (trailOf (fst (execute (mockAdapter [] alwaysCompletes) largeTask noOptions 0)))
     = Some [(''subAgents'', ''skipped''), (''parallel'', ''skipped''),
             (''streaming'', ''skipped''), (''batched'', ''success'')]
   \<and> snd (execute (mockAdapter [] alwaysCompletes) largeTask noOptions 0) = 5"
  by (simp add: engine_defs task_defs mockAdapter_fields alwaysCompletes_def slices.simps)

text \<open>
  C5. The outcomes of the chain carry the trail (\<open>tryStrategies_trail\<close>: one entry per strategy
  examined, in the order of the list). The explicit path does not: on the input of the
  package's test "should honor explicit strategy in vendor extensions" \<^verbatim>\<open>execute\<close> returns
  the adapter's result as it is, without \<^verbatim>\<open>strategy\<close>, \<^verbatim>\<open>attempts\<close> or \<^verbatim>\<open>totalDuration\<close>; and
  on the input of the test "should fall back if explicit strategy fails" the failed explicit
  attempt used one \<^verbatim>\<open>executeTask\<close> call but is no entry of the trail.
\<close>

theorem explicit_success_has_no_trail:
  "execute (mockAdapter [''streaming''] alwaysCompletes) explicitStreamingTask noOptions 0
     = (Some (Returned \<lparr>exec_result = completed, exec_strategy = None,
                        exec_attempts = None, exec_totalDuration = None\<rparr>), 0)
   \<and> executeStrategy (mockAdapter [''parallelExecution''] failsFirst) ''parallel''
        explicitParallelTask noOptions 0
     = (Some (0, Rejected ''Parallel failed''), 1)
   \<and> map_option (map entryOf)
        (trailOf (fst (execute (mockAdapter [''parallelExecution''] failsFirst)
           explicitParallelTask noOptions 0)))
     = Some [(''subAgents'', ''skipped''), (''parallel'', ''skipped''),
             (''streaming'', ''skipped''), (''batched'', ''skipped''),
             (''sequential'', ''success'')]
   \<and> snd (execute (mockAdapter [''parallelExecution''] failsFirst)
        explicitParallelTask noOptions 0) = 2"
  by (simp add: engine_defs task_defs mockAdapter_fields failsFirst_def)



lemma tryStrategies_trail:
  "\<exists>tr. trailOf (Some (fst (tryStrategies a t opts ss atts el st))) = Some (atts @ tr)
        \<and> map att_strategy tr = take (length tr) ss"
proof (induction ss arbitrary: atts el st)
  case Nil
  then show ?case by (simp add: trailOf_def)
next
  case (Cons s ss)
  show ?case
  proof (cases "isStrategyAvailable a s")
    case False
    from Cons.IH [of "atts @ [skippedAttempt s ''Not available'']" el st]
    obtain tr where "trailOf (Some (fst (tryStrategies a t opts ss
          (atts @ [skippedAttempt s ''Not available'']) el st)))
        = Some ((atts @ [skippedAttempt s ''Not available'']) @ tr)"
      "map att_strategy tr = take (length tr) ss" by blast
    then show ?thesis
      using False
      by (intro exI [of _ "skippedAttempt s ''Not available'' # tr"])
         (simp add: tryStrategies_unavailable skippedAttempt_def)
  next
    case True
    note av = this
    show ?thesis
    proof (cases "isStrategySuitable s t")
      case False
      from Cons.IH [of "atts @ [skippedAttempt s ''Not suitable for task'']" el st]
      obtain tr where "trailOf (Some (fst (tryStrategies a t opts ss
            (atts @ [skippedAttempt s ''Not suitable for task'']) el st)))
          = Some ((atts @ [skippedAttempt s ''Not suitable for task'']) @ tr)"
        "map att_strategy tr = take (length tr) ss" by blast
      then show ?thesis
        using False av
        by (intro exI [of _ "skippedAttempt s ''Not suitable for task'' # tr"])
           (simp add: tryStrategies_unsuitable skippedAttempt_def)
    next
      case True
      obtain p st' where ex: "executeStrategy a s t opts st = (p, st')"
        by (cases "executeStrategy a s t opts st")
      obtain d o' where tm: "executeWithTimeout p (timeoutFor opts s) = (d, o')"
        by (cases "executeWithTimeout p (timeoutFor opts s)")
      show ?thesis
      proof (cases o')
        case (Resolved r)
        with tryStrategies_success [OF av True ex, of d r ss atts el] tm
        show ?thesis
          by (intro exI [of _ "[successAttempt s d]"])
             (simp add: trailOf_def successAttempt_def)
      next
        case (Rejected m)
        from Cons.IH [of "atts @ [failedAttempt s m d]" "el + d" st']
        obtain tr where "trailOf (Some (fst (tryStrategies a t opts ss
              (atts @ [failedAttempt s m d]) (el + d) st')))
            = Some ((atts @ [failedAttempt s m d]) @ tr)"
          "map att_strategy tr = take (length tr) ss" by blast
        then show ?thesis
          using tryStrategies_failure [OF av True ex, of d m ss atts el] tm Rejected
          by (intro exI [of _ "failedAttempt s m d # tr"]) (simp add: failedAttempt_def)
      qed
    qed
  qed
qed

text \<open>
  C9. When the task names an explicit strategy \<open>s\<close>, \<^verbatim>\<open>execute\<close> awaits \<^verbatim>\<open>_executeStrategy(s)\<close>
  directly: whatever the time \<open>d\<close> it takes, its result is returned (no timer: if it never
  settles, neither does \<^verbatim>\<open>execute\<close>), and neither \<^verbatim>\<open>_isStrategyAvailable\<close> nor
  \<^verbatim>\<open>_isStrategySuitable\<close> is asked. A name outside the five known strategies runs the
  sequential path, \<^verbatim>\<open>adapter.executeTask(task)\<close>, although both checks are false for it.
\<close>

theorem explicit_strategy_unguarded:
  assumes "getExplicitStrategy a t = Some s"
  shows "(\<forall>d r st'. executeStrategy a s t opts st = (Some (d, Resolved r), st') \<longrightarrow>
            execute a t opts st =
              (Some (Returned \<lparr>exec_result = r, exec_strategy = None,
                               exec_attempts = None, exec_totalDuration = None\<rparr>), st'))
         \<and> (\<forall>st'. executeStrategy a s t opts st = (None, st') \<longrightarrow>
               execute a t opts st = (None, st'))
         \<and> (s \<notin> set defaultStrategies \<longrightarrow>
               executeStrategy a s t opts st = ad_executeTask a st t
               \<and> \<not> isStrategyAvailable a s \<and> \<not> isStrategySuitable s t)"
  using assms
  by (auto simp: execute_def defaultStrategies_def executeStrategy_def executeSequentially_def
      isStrategyAvailable_def isStrategySuitable_def)

theorem explicit_strategy_unguarded_witness:
  "execute (mockAdapter [] slowly) turboTask noOptions 0
     = (Some (Returned \<lparr>exec_result = completed, exec_strategy = None,
                        exec_attempts = None, exec_totalDuration = None\<rparr>), 1)
   \<and> \<not> isStrategyAvailable (mockAdapter [] slowly) ''turbo''
   \<and> timeoutFor noOptions ''sequential'' \<le> 100000
   \<and> tryStrategies (mockAdapter [] slowly) turboTask noOptions [''sequential''] [] 0 0
     = (Thrown ''All execution strategies failed''
          [failedAttempt ''sequential'' ''Strategy timeout'' 60000] 60000, 1)"
proof -
  have e: "getExplicitStrategy (mockAdapter [] slowly) turboTask = Some ''turbo''"
    by (simp add: getExplicitStrategy_def task_defs)
  have n: "''turbo'' \<notin> set defaultStrategies" by (simp add: defaultStrategies_def)
  have x: "ad_executeTask (mockAdapter [] slowly) 0 turboTask = (Some (100000, Resolved completed), 1)"
    by (simp add: mockAdapter_fields slowly_def)
  from explicit_strategy_unguarded [OF e, of noOptions 0] n x
  have "execute (mockAdapter [] slowly) turboTask noOptions 0
     = (Some (Returned \<lparr>exec_result = completed, exec_strategy = None,
                        exec_attempts = None, exec_totalDuration = None\<rparr>), 1)"
    and "\<not> isStrategyAvailable (mockAdapter [] slowly) ''turbo''"
    by simp_all
  moreover have "tryStrategies (mockAdapter [] slowly) turboTask noOptions [''sequential''] [] 0 0
     = (Thrown ''All execution strategies failed''
          [failedAttempt ''sequential'' ''Strategy timeout'' 60000] 60000, 1)"
    by (simp add: engine_defs mockAdapter_fields slowly_def)
  moreover have "timeoutFor noOptions ''sequential'' \<le> 100000"
    by (simp add: timeoutFor_def timeouts_def noOptions_def)
  ultimately show ?thesis by simp
qed

text \<open>
  C8. For every capability profile with a \<^verbatim>\<open>subAgents\<close> object, whatever its \<^verbatim>\<open>supported\<close>
  flag, the inherited \<^verbatim>\<open>supportsFeature('subAgents')\<close> is true, and so the engine's
  availability check holds the \<^verbatim>\<open>subAgents\<close> strategy available for an adapter with that
  profile.
\<close>

theorem subAgents_object_is_truthy:
  assumes "cap_subAgents caps = Some sa"
  shows "AIAgentAdapter_supportsFeature (Some caps) ''subAgents''
         \<and> isStrategyAvailable (AIAgentAdapter name version (Some caps) exec) ''subAgents''"
  using assms
  by (simp add: AIAgentAdapter_supportsFeature_def supportsFeatureObj_def capsObject_def
      subAgentsObject_def isStrategyAvailable_def AIAgentAdapter_def)

theorem subAgents_object_is_truthy_witness:
  "sa_supported (the (cap_subAgents claudeCodeCapabilities)) = False
   \<and> ad_supportsFeature claudeCode ''subAgents''
   \<and> isStrategyAvailable claudeCode ''subAgents''
   \<and> \<not> ad_supportsFeature claudeCode ''subAgents.supported''"
proof -
  have c: "cap_subAgents claudeCodeCapabilities
           = Some \<lparr>sa_supported = False, sa_maxConcurrent = Some 1, sa_delegationTypes = Some []\<rparr>"
    by (simp add: claudeCodeCapabilities_def)
  have n: "\<not> ad_supportsFeature claudeCode ''subAgents.supported''"
    by (simp add: claudeCode_def adapter_defs)
  from subAgents_object_is_truthy [OF c, of "''claude-code''" "Some ''1.0.77''" completes] c n
  show ?thesis
    by (simp add: claudeCode_def AIAgentAdapter_def)
qed







section \<open>Properties of the router\<close>

lemma update_absent: "map_of al k = None \<Longrightarrow> AList.update k v al = al @ [(k, v)]"
  by (induction al) (auto split: if_splits)

lemma insort_key_snoc:
  "f a \<le> f y \<Longrightarrow> insort_key f a (ys @ [y]) = insort_key f a ys @ [y]"
  by (induction ys) auto

lemma sort_key_snoc:
  "\<forall>x \<in> set xs. f x \<le> f y \<Longrightarrow> sort_key f (xs @ [y]) = sort_key f xs @ [y]"
  by (induction xs) (simp_all add: insort_key_snoc)

lemma foldl_delete_other:
  "k \<notin> set ks \<Longrightarrow> map_of (foldl (\<lambda>c k'. AList.delete k' c) c ks) k = map_of c k"
  by (induction ks arbitrary: c) auto

lemma foldl_delete_subset:
  "set (foldl (\<lambda>c k'. AList.delete k' c) c ks) \<subseteq> set c"
proof (induction ks arbitrary: c)
  case Nil
  then show ?case by simp
next
  case (Cons k ks)
  have "set (AList.delete k c) \<subseteq> set c" by (auto simp: AList.delete_eq)
  with Cons [of "AList.delete k c"] show ?case by auto
qed

lemma update_subset: "set (AList.update k v al) \<subseteq> insert (k, v) (set al)"
  by (induction al) auto

lemma cacheRoute_lookup:
  assumes absent: "map_of (rt_cache rt) key = None"
    and older: "\<forall>entry \<in> set (rt_cache rt). rd_timestamp (snd entry) \<le> rd_timestamp d"
  shows "map_of (rt_cache (cacheRoute key d rt)) key = Some d"
proof -
  let ?ts = "\<lambda>entry :: cacheKey \<times> 'a routingDecision. rd_timestamp (snd entry)"
  have upd: "AList.update key d (rt_cache rt) = rt_cache rt @ [(key, d)]"
    using absent by (rule update_absent)
  have found: "map_of (rt_cache rt @ [(key, d)]) key = Some d"
    using absent by (simp add: map_add_def)
  show ?thesis
  proof (cases "length (rt_cache rt @ [(key, d)]) > 1000")
    case False
    then show ?thesis using found by (simp add: cacheRoute_def upd)
  next
    case True
    have sorted: "sort_key ?ts (rt_cache rt @ [(key, d)]) = sort_key ?ts (rt_cache rt) @ [(key, d)]"
      using older by (intro sort_key_snoc) simp
    have "take 100 (sort_key ?ts (rt_cache rt) @ [(key, d)]) = take 100 (sort_key ?ts (rt_cache rt))"
      using True by simp
    then have "set (take 100 (sort_key ?ts (rt_cache rt @ [(key, d)]))) \<subseteq> set (rt_cache rt)"
      using set_take_subset [of 100 "sort_key ?ts (rt_cache rt)"] by (simp add: sorted)
    moreover have "key \<notin> fst ` set (rt_cache rt)"
      using absent by (simp add: map_of_eq_None_iff)
    ultimately have "key \<notin> set (map fst (take 100 (sort_key ?ts (rt_cache rt @ [(key, d)]))))"
      by auto
    from foldl_delete_other [OF this, of "rt_cache rt @ [(key, d)]"]
    have "map_of (foldl (\<lambda>c k'. AList.delete k' c) (rt_cache rt @ [(key, d)])
                   (map fst (take 100 (sort_key ?ts (rt_cache rt @ [(key, d)]))))) key = Some d"
      using found by (simp only:)
    moreover have "rt_cache (cacheRoute key d rt)
        = foldl (\<lambda>c k'. AList.delete k' c) (rt_cache rt @ [(key, d)])
                   (map fst (take 100 (sort_key ?ts (rt_cache rt @ [(key, d)]))))"
      using True by (simp add: cacheRoute_def upd Let_def)
    ultimately show ?thesis by simp
  qed
qed

lemma cacheRoute_subset:
  "set (rt_cache (cacheRoute key d rt)) \<subseteq> insert (key, d) (set (rt_cache rt))"
  using foldl_delete_subset [of "AList.update key d (rt_cache rt)"] update_subset [of key d "rt_cache rt"]
  by (auto simp: cacheRoute_def Let_def)

lemma cacheRoute_other:
  "rt_clock (cacheRoute key d rt) = rt_clock rt"
  "rt_events (cacheRoute key d rt) = rt_events rt"
  "rt_allocated (cacheRoute key d rt) = rt_allocated rt"
  "rt_preferences (cacheRoute key d rt) = rt_preferences rt"
  by (simp_all add: cacheRoute_def Let_def)

lemma getCachedRoute_miss:
  assumes "getCachedRoute key now rt = (None, rt1)"
  shows "map_of (rt_cache rt1) key = None" "set (rt_cache rt1) \<subseteq> set (rt_cache rt)"
    "rt_clock rt1 = rt_clock rt" "rt_allocated rt1 = rt_allocated rt"
proof -
  from assms show "map_of (rt_cache rt1) key = None"
    by (auto simp: getCachedRoute_def delete_conv' split: option.splits if_splits)
  from assms show "set (rt_cache rt1) \<subseteq> set (rt_cache rt)"
    by (auto simp: getCachedRoute_def AList.delete_eq split: option.splits if_splits)
  from assms show "rt_clock rt1 = rt_clock rt" "rt_allocated rt1 = rt_allocated rt"
    by (auto simp: getCachedRoute_def split: option.splits if_splits)
qed

lemma getCachedRoute_hit:
  assumes "getCachedRoute key now rt = (Some cached, rt1)"
  shows "rt1 = rt" "map_of (rt_cache rt) key = Some cached"
  using assms
  by (auto simp: getCachedRoute_def split: option.splits if_splits)

text \<open>A call that creates a decision stamps it with the time of the call and caches it.\<close>

lemma route_creates:
  assumes r: "route reg e t rt = (Inr d, rt1)"
    and created: "rt_allocated rt1 = Suc (rt_allocated rt)"
    and timed: "wellTimed rt"
  shows "map_of (rt_cache rt1) (generateCacheKey t) = Some d"
    and "rd_timestamp d = rt_clock rt1"
    and "rt_clock rt1 = rt_clock rt + e"
proof -
  let ?now = "rt_clock rt + e"
  let ?key = "generateCacheKey t"
  obtain c rt' where g: "getCachedRoute ?key ?now (rt\<lparr>rt_clock := ?now\<rparr>) = (c, rt')"
    by (cases "getCachedRoute ?key ?now (rt\<lparr>rt_clock := ?now\<rparr>)")
  have miss: "c = None"
  proof (cases c)
    case None
    then show ?thesis .
  next
    case (Some cached)
    with g getCachedRoute_hit(1) [of ?key ?now "rt\<lparr>rt_clock := ?now\<rparr>" cached rt']
    have "rt' = rt\<lparr>rt_clock := ?now\<rparr>" by simp
    with r g Some have "rt_allocated rt1 = rt_allocated rt"
      by (auto simp: route_def Let_def)
    with created show ?thesis by simp
  qed
  note m = getCachedRoute_miss [OF g [unfolded miss]]
  from r g miss obtain selection where
    sel: "selectOptimalAdapter reg (analyzeTask t) (rt_preferences rt') = Inr (Some selection)"
    by (auto simp: route_def Let_def split: sum.splits option.splits)
  define d' where "d' = \<lparr>rd_ref = rt_allocated rt',
                             rd_adapter = m_adapter selection,
                             rd_adapterName = m_name selection,
                             rd_adapterVersion = m_version selection,
                             rd_strategy = selectStrategy (m_adapter selection) t (analyzeTask t)
                                       (rt_preferences rt'),
                             rd_requirements = analyzeTask t,
                             rd_score = m_score selection,
                             rd_timestamp = ?now\<rparr>"
  define rt2 where "rt2 = cacheRoute ?key d' (rt'\<lparr>rt_allocated := Suc (rt_allocated rt')\<rparr>)"
  from g miss sel
  have "route reg e t rt = (Inr d', rt2\<lparr>rt_events := rt_events rt2
                                 @ [TaskRouted (task_id t) (task_type t) (m_name selection)
                                      (m_version selection) (rd_strategy d')]\<rparr>)"
    by (simp add: route_def Let_def d'_def rt2_def)
  with r have d: "d = d'"
    and rt1: "rt1 = rt2\<lparr>rt_events := rt_events rt2
                                 @ [TaskRouted (task_id t) (task_type t) (m_name selection)
                                      (m_version selection) (rd_strategy d')]\<rparr>"
    by auto
  have older: "\<forall>entry \<in> set (rt_cache (rt'\<lparr>rt_allocated := Suc (rt_allocated rt')\<rparr>)).
                 rd_timestamp (snd entry) \<le> rd_timestamp d'"
    using timed m(2) by (fastforce simp: wellTimed_def d'_def intro: trans_le_add1)
  have "map_of (rt_cache rt2) ?key = Some d'"
    unfolding rt2_def using m(1) older by (intro cacheRoute_lookup) simp_all
  then show "map_of (rt_cache rt1) ?key = Some d" by (simp add: rt1 d)
  show "rt_clock rt1 = rt_clock rt + e"
    using m(3) by (simp add: rt1 rt2_def cacheRoute_other)
  then show "rd_timestamp d = rt_clock rt1" by (simp add: d d'_def)
qed

text \<open>A call that finds a decision no older than the TTL returns it and asks nothing else.\<close>

lemma route_hit:
  assumes "map_of (rt_cache rt) (generateCacheKey t) = Some d"
    and "rt_clock rt + e \<le> rd_timestamp d + cacheTTL"
  shows "route reg e t rt =
           (Inr d, rt\<lparr>rt_clock := rt_clock rt + e,
                      rt_events := rt_events rt @ [CacheHit (task_id t) (ad_name (rd_adapter d))]\<rparr>)"
  using assms by (simp add: route_def getCachedRoute_def Let_def)

lemma wellTimed_route:
  assumes "wellTimed rt"
  shows "wellTimed (snd (route reg e t rt))"
proof -
  let ?now = "rt_clock rt + e"
  let ?key = "generateCacheKey t"
  obtain c rt' where g: "getCachedRoute ?key ?now (rt\<lparr>rt_clock := ?now\<rparr>) = (c, rt')"
    by (cases "getCachedRoute ?key ?now (rt\<lparr>rt_clock := ?now\<rparr>)")
  have base: "wellTimed (rt\<lparr>rt_clock := ?now\<rparr>)"
    using assms by (auto simp: wellTimed_def)
  show ?thesis
  proof (cases c)
    case (Some cached)
    with g getCachedRoute_hit(1) [of ?key ?now "rt\<lparr>rt_clock := ?now\<rparr>" cached rt']
    have "rt' = rt\<lparr>rt_clock := ?now\<rparr>" by simp
    with g Some base show ?thesis
      by (simp add: route_def Let_def wellTimed_def)
  next
    case None
    note m = getCachedRoute_miss [OF g [unfolded None]]
    have w': "wellTimed rt'" using base m(2,3) by (auto simp: wellTimed_def)
    show ?thesis
    proof (cases "selectOptimalAdapter reg (analyzeTask t) (rt_preferences rt')")
      case (Inl e)
      with g None w' show ?thesis by (simp add: route_def Let_def)
    next
      case (Inr sel)
      show ?thesis
      proof (cases sel)
        case None': None
        with g None Inr w' show ?thesis by (simp add: route_def Let_def)
      next
        case (Some selection)
        have "rt_clock rt' = ?now" using m(3) by simp
        with w' cacheRoute_subset show ?thesis
          using g None Inr Some
          by (fastforce simp: route_def Let_def wellTimed_def cacheRoute_other)
      qed
    qed
  qed
qed

lemma wellTimed_applyRouterCall: "wellTimed rt \<Longrightarrow> wellTimed (applyRouterCall rt call)"
  by (cases call) (simp_all add: wellTimed_route, simp add: wellTimed_def clearCache_def)

lemma wellTimed_foldl: "wellTimed rt \<Longrightarrow> wellTimed (foldl applyRouterCall rt calls)"
  by (induction calls arbitrary: rt) (simp_all add: wellTimed_applyRouterCall)

lemma wellTimed_runRouter: "wellTimed (runRouter prefs calls)"
  unfolding runRouter_def
  by (rule wellTimed_foldl) (simp add: wellTimed_def newRouter_def)

text \<open>
  C7. After any history of calls on a router, let a \<^verbatim>\<open>route()\<close> call create a routing
  decision (it is not itself served from the cache, and it does not throw), and let a second
  call follow within the TTL of five minutes, for a task with the same cache key. Then the
  second call returns the decision object of the first, emits one \<^verbatim>\<open>route:cache-hit\<close> event
  and changes nothing else; whatever state the registry is in by then, it is not consulted.
\<close>

theorem repeated_route_hits_cache:
  assumes first: "route reg1 e1 t1 (runRouter prefs calls) = (Inr d, rt1)"
    and created: "rt_allocated rt1 = Suc (rt_allocated (runRouter prefs calls))"
    and sameKey: "generateCacheKey t2 = generateCacheKey t1"
    and withinTTL: "e2 \<le> cacheTTL"
  shows "route reg2 e2 t2 rt1 =
           (Inr d, rt1\<lparr>rt_clock := rt_clock rt1 + e2,
                       rt_events := rt_events rt1
                         @ [CacheHit (task_id t2) (ad_name (rd_adapter d))]\<rparr>)"
proof -
  note c = route_creates [OF first created wellTimed_runRouter]
  have "map_of (rt_cache rt1) (generateCacheKey t2) = Some d"
    using c(1) sameKey by simp
  moreover have "rt_clock rt1 + e2 \<le> rd_timestamp d + cacheTTL"
    using c(2) withinTTL by simp
  ultimately show ?thesis by (rule route_hit)
qed

lemmas analyze_defs = analyzeTask_def generateCacheKey_def toLowerCase_def toLowerChar_def
  isWordChar_def testWords_def wordAt_def boundaryBefore_def languagePatterns_def
  taskTypeFeatures_def estimateContextSize_def componentTask_def widgetTask_def
  plainTask_def withFiles_def

lemma analyze_componentTask:
  "analyzeTask componentTask =
     \<lparr>req_features = Some [''generation'', ''refactoring''],
      req_minContextTokens = 1500, req_languages = Some [''typescript''],
      req_multiFile = True, req_streaming = False, req_subAgents = False\<rparr>"
  by (simp add: analyze_defs)

lemma analyze_widgetTask:
  "analyzeTask widgetTask =
     \<lparr>req_features = Some [''generation'', ''refactoring''],
      req_minContextTokens = 1500, req_languages = Some [''typescript''],
      req_multiFile = True, req_streaming = False, req_subAgents = False\<rparr>"
  by (simp add: analyze_defs)

lemma sameKey: "generateCacheKey widgetTask = generateCacheKey componentTask"
  by (simp add: generateCacheKey_def analyze_componentTask analyze_widgetTask)
     (simp add: componentTask_def widgetTask_def plainTask_def withFiles_def)

lemma score_gemini:
  "calculateCapabilityScore gemini (analyzeTask componentTask) = Inr 38"
  by (simp add: analyze_componentTask score_defs gemini_def adapter_defs)

lemma score_claudeCode:
  "calculateCapabilityScore claudeCode (analyzeTask componentTask) = Inr 0"
  by (simp add: analyze_componentTask score_defs claudeCode_def adapter_defs)

lemma select_componentTask:
  "selectOptimalAdapter bothAdapters (analyzeTask componentTask) defaultPreferences
     = Inr (Some \<lparr>m_name = ''gemini-cli'', m_version = ''2.0.0'', m_adapter = gemini,
                  m_score = 38, m_capabilities = Some geminiCapabilities\<rparr>)"
  by (simp add: selectOptimalAdapter_def findMatchingAdapters_def registeredPairs_def
      bothAdapters_eq score_gemini score_claudeCode sortByScore_def defaultPreferences_def
      boostPreferred_def boostPerformance_def getAdapterMetrics_def metricsKey_def
      defaultMetrics_def gemini_fields)

lemma componentTask_fields:
  "task_extensions componentTask = None"
  "task_id componentTask = ''task-a''"
  "task_type componentTask = ''generation''"
  "task_id widgetTask = ''task-b''"
  by (simp_all add: componentTask_def widgetTask_def plainTask_def withFiles_def)

lemma strategy_componentTask:
  "selectStrategy gemini componentTask (analyzeTask componentTask) defaultPreferences = ''parallel''"
  by (simp add: selectStrategy_def analyze_componentTask defaultPreferences_def gemini_def
      adapter_defs AIAgentAdapter_getVendorExtensions_def componentTask_fields)

lemma first_route:
  "route bothAdapters 5 componentTask (runRouter defaultPreferences [])
     = (Inr firstDecision,
        \<lparr>rt_preferences = defaultPreferences,
         rt_cache = [(generateCacheKey componentTask, firstDecision)],
         rt_events = [TaskRouted ''task-a'' ''generation'' ''gemini-cli'' ''2.0.0'' ''parallel''],
         rt_allocated = 1, rt_clock = 5\<rparr>)"
  by (simp add: route_def runRouter_def newRouter_def getCachedRoute_def Let_def
      select_componentTask strategy_componentTask cacheRoute_def firstDecision_def
      componentTask_fields)

theorem repeated_route_hits_cache_witness:
  "generateCacheKey widgetTask = generateCacheKey componentTask
   \<and> task_id widgetTask \<noteq> task_id componentTask
   \<and> fst (route bothAdapters 5 componentTask (runRouter defaultPreferences []))
       = Inr firstDecision
   \<and> fst (route emptyRegistry cacheTTL widgetTask
            (snd (route bothAdapters 5 componentTask (runRouter defaultPreferences []))))
       = Inr firstDecision
   \<and> rt_events (snd (route emptyRegistry cacheTTL widgetTask
            (snd (route bothAdapters 5 componentTask (runRouter defaultPreferences [])))))
       = [TaskRouted ''task-a'' ''generation'' ''gemini-cli'' ''2.0.0'' ''parallel'',
          CacheHit ''task-b'' ''gemini-cli'']"
proof -
  let ?rt1 = "\<lparr>rt_preferences = defaultPreferences,
         rt_cache = [(generateCacheKey componentTask, firstDecision)],
         rt_events = [TaskRouted ''task-a'' ''generation'' ''gemini-cli'' ''2.0.0'' ''parallel''],
         rt_allocated = 1, rt_clock = 5\<rparr> :: unit router"
  have created: "rt_allocated ?rt1 = Suc (rt_allocated (runRouter defaultPreferences []))"
    by (simp add: runRouter_def newRouter_def)
  have ttl: "cacheTTL \<le> cacheTTL" by simp
  from repeated_route_hits_cache [OF first_route created sameKey ttl, of emptyRegistry]
  show ?thesis
    by (simp add: first_route sameKey componentTask_fields firstDecision_def gemini_fields)
qed

end
